theory Spec2Isabelle
  imports Main "HOL-Library.Log_Nat"
begin

section \<open>JavaScript values and numbers\<close>

text \<open>
  The arguments of \<open>timeRange\<close> and \<open>weekdayRange\<close> are untyped JavaScript values.
  The embedding covers the three kinds a PAC script passes: \<open>undefined\<close> (an omitted
  parameter), integer-valued numbers and strings. \<open>JNum n\<close> is the value of the numeric
  literal \<open>n\<close>, the double nearest to \<open>n\<close>. A string is a list of code units below 256.
\<close>

datatype jsval = JUndefined | JNum int | JStr string

text \<open>
  A value of type \<open>number\<close> computed by the source: an integer-valued double, one of the
  two infinities, or not-a-number. Every number that the two files compute is of this
  kind: \<open>parseInt\<close> returns one, the clock fields and the literals are small integers, and
  sums and products of integer-valued doubles round to integer-valued doubles. The sign
  of zero is not kept: no operation of the source tells the two zeros apart.
\<close>

datatype jsnum = NaN | Num int | PosInf | NegInf

subsection \<open>Rounding to a double\<close>

text \<open>
  \<open>m\<close> rounded to the nearest multiple of \<open>u\<close>, a tie going to the even multiple.
\<close>

definition roundHalfEven :: "int \<Rightarrow> int \<Rightarrow> int" where
  "roundHalfEven u m =
     (let q = m div u; r = m mod u
      in (if 2 * r < u \<or> (2 * r = u \<and> even q) then q else q + 1) * u)"

text \<open>
  A non-negative integer rounded to 53 significant bits: below \<open>2^53\<close> every integer is
  a double; from there on the doubles of the binade of \<open>m\<close> are the multiples of
  \<open>2^(bitlen m - 53)\<close>.
\<close>

definition roundMagnitude :: "int \<Rightarrow> int" where
  "roundMagnitude m =
     (if m < 2 ^ 53 then m else roundHalfEven (2 ^ nat (bitlen m - 53)) m)"

text \<open>
  The double nearest to the integer \<open>n\<close> (round to nearest, ties to even); a magnitude
  that rounds to \<open>2^1024\<close> or more overflows to an infinity.
\<close>

definition roundToDouble :: "int \<Rightarrow> jsnum" where
  "roundToDouble n =
     (let m = roundMagnitude \<bar>n\<bar>
      in if 2 ^ 1024 \<le> m then (if n < 0 then NegInf else PosInf)
         else Num (if n < 0 then - m else m))"

subsection \<open>Arithmetic and comparison\<close>

text \<open>\<open>a + b\<close>: the exact sum rounded; opposite infinities give not-a-number.\<close>

fun js_add :: "jsnum \<Rightarrow> jsnum \<Rightarrow> jsnum" where
  "js_add (Num a) (Num b) = roundToDouble (a + b)"
| "js_add NaN _ = NaN"
| "js_add _ NaN = NaN"
| "js_add PosInf NegInf = NaN"
| "js_add NegInf PosInf = NaN"
| "js_add PosInf _ = PosInf"
| "js_add _ PosInf = PosInf"
| "js_add NegInf _ = NegInf"
| "js_add _ NegInf = NegInf"

text \<open>The product of an infinity of sign \<open>pos\<close> and the integer \<open>b\<close>.\<close>

definition infinityTimes :: "bool \<Rightarrow> int \<Rightarrow> jsnum" where
  "infinityTimes pos b =
     (if b = 0 then NaN else if (0 < b) = pos then PosInf else NegInf)"

text \<open>\<open>a * b\<close>: the exact product rounded; an infinity times zero is not-a-number.\<close>

fun js_mul :: "jsnum \<Rightarrow> jsnum \<Rightarrow> jsnum" where
  "js_mul (Num a) (Num b) = roundToDouble (a * b)"
| "js_mul NaN _ = NaN"
| "js_mul _ NaN = NaN"
| "js_mul PosInf (Num b) = infinityTimes True b"
| "js_mul NegInf (Num b) = infinityTimes False b"
| "js_mul (Num a) PosInf = infinityTimes True a"
| "js_mul (Num a) NegInf = infinityTimes False a"
| "js_mul PosInf PosInf = PosInf"
| "js_mul NegInf NegInf = PosInf"
| "js_mul PosInf NegInf = NegInf"
| "js_mul NegInf PosInf = NegInf"

text \<open>\<open>a <= b\<close>, \<open>a < b\<close>, \<open>a === b\<close>: false as soon as one side is not-a-number.\<close>

fun js_le :: "jsnum \<Rightarrow> jsnum \<Rightarrow> bool" where
  "js_le (Num a) (Num b) = (a \<le> b)"
| "js_le NaN _ = False"
| "js_le _ NaN = False"
| "js_le NegInf _ = True"
| "js_le _ PosInf = True"
| "js_le _ _ = False"

fun js_lt :: "jsnum \<Rightarrow> jsnum \<Rightarrow> bool" where
  "js_lt (Num a) (Num b) = (a < b)"
| "js_lt NaN _ = False"
| "js_lt _ NaN = False"
| "js_lt PosInf _ = False"
| "js_lt _ NegInf = False"
| "js_lt _ _ = True"

fun js_eq :: "jsnum \<Rightarrow> jsnum \<Rightarrow> bool" where
  "js_eq (Num a) (Num b) = (a = b)"
| "js_eq PosInf PosInf = True"
| "js_eq NegInf NegInf = True"
| "js_eq _ _ = False"

subsection \<open>ToString\<close>

text \<open>The decimal digits of a non-negative integer.\<close>

definition digitChar :: "int \<Rightarrow> char" where
  "digitChar d = char_of (nat (48 + d))"

function digits :: "int \<Rightarrow> string" where
  "digits n = (if n < 10 then [digitChar n] else digits (n div 10) @ [digitChar (n mod 10)])"
  by pat_completeness auto
termination
  by (relation "measure nat") auto

declare digits.simps [simp del]

text \<open>
  Number::toString prints the decimal with the fewest significant digits that still
  rounds to the double, the closest one if there are several, the one with the even last
  digit on a tie. \<open>candidate m e\<close> is that choice among the multiples of \<open>10^e\<close>, for a
  double \<open>m\<close> from \<open>2^53\<close> on; \<open>shortest\<close> tries the coarsest multiples first.
\<close>

definition candidate :: "int \<Rightarrow> nat \<Rightarrow> int option" where
  "candidate m e =
     (let p = 10 ^ e;
          lo = (m div p) * p;
          hi = lo + p;
          okLo = (roundMagnitude lo = m);
          okHi = (roundMagnitude hi = m)
      in if okLo \<and> okHi then
           (if m - lo < hi - m \<or> (m - lo = hi - m \<and> even (m div p)) then Some lo else Some hi)
         else if okLo then Some lo
         else if okHi then Some hi
         else None)"

fun shortest :: "int \<Rightarrow> nat \<Rightarrow> int" where
  "shortest m 0 = m"
| "shortest m (Suc e) = (case candidate m (Suc e) of Some v \<Rightarrow> v | None \<Rightarrow> shortest m e)"

text \<open>
  The exponent form of a decimal from \<open>10^21\<close> on: first digit, the other significant
  digits after a point if there are any, then \<open>e+\<close> and the exponent.
\<close>

definition exponentForm :: "int \<Rightarrow> string" where
  "exponentForm v =
     (let ds = digits v;
          significant = rev (dropWhile (\<lambda>ch. ch = CHR ''0'') (rev ds))
      in (case significant of
            [] \<Rightarrow> []
          | ch # rest \<Rightarrow>
              ch # (if rest = [] then [] else CHR ''.'' # rest) @ ''e+'' @
                digits (int (length ds) - 1)))"

text \<open>Number::toString of an integer-valued double.\<close>

definition numberToString :: "int \<Rightarrow> string" where
  "numberToString v =
     (let m = \<bar>v\<bar>;
          body =
            (if m < 2 ^ 53 then digits m
             else
               (let w = shortest m (length (digits m) - 1)
                in if w < 10 ^ 21 then digits w else exponentForm w))
      in if v < 0 then CHR ''-'' # body else body)"

text \<open>The text of a value, as \<open>parseInt\<close> reads it (the abstract operation ToString).\<close>

fun ToString :: "jsval \<Rightarrow> string" where
  "ToString JUndefined = ''undefined''"
| "ToString (JStr s) = s"
| "ToString (JNum n) =
     (case roundToDouble n of
        Num v \<Rightarrow> numberToString v
      | PosInf \<Rightarrow> ''Infinity''
      | NegInf \<Rightarrow> ''-Infinity''
      | NaN \<Rightarrow> ''NaN'')"

subsection \<open>parseInt with radix 10\<close>

text \<open>
  White space that \<open>parseInt\<close> skips at the start of the text: tab, line feed, vertical
  tab, form feed, carriage return, space and no-break space.
\<close>

definition isWhiteSpace :: "char \<Rightarrow> bool" where
  "isWhiteSpace ch =
     (let k = (of_char ch :: nat)
      in k = 9 \<or> k = 10 \<or> k = 11 \<or> k = 12 \<or> k = 13 \<or> k = 32 \<or> k = 160)"

definition isDigit :: "char \<Rightarrow> bool" where
  "isDigit ch = (let k = (of_char ch :: nat) in 48 \<le> k \<and> k \<le> 57)"

definition digitVal :: "char \<Rightarrow> int" where
  "digitVal ch = int (of_char ch) - 48"

text \<open>
  The mathematical value of a run of decimal digits, most significant first. It is exact
  whatever the length of the run; \<open>parseInt\<close> rounds it to a double.
\<close>

fun digitsValue :: "int \<Rightarrow> string \<Rightarrow> int" where
  "digitsValue acc [] = acc"
| "digitsValue acc (ch # cs) = digitsValue (acc * 10 + digitVal ch) cs"

text \<open>
  \<open>parseInt(v, 10)\<close>: the text of \<open>v\<close>, leading white space dropped, an optional sign,
  then the longest run of decimal digits; whatever follows the digits is ignored, and a
  text with no digit at that place gives not-a-number. With the radix given as 10 no
  \<open>0x\<close> prefix is recognised. The result is the double nearest to the signed value of
  the digits.
\<close>

definition parseInt :: "jsval \<Rightarrow> jsnum" where
  "parseInt v =
     (let s = dropWhile isWhiteSpace (ToString v);
          sign = (case s of [] \<Rightarrow> 1 | ch # _ \<Rightarrow> if ch = CHR ''-'' then - 1 else (1::int));
          s' = (case s of [] \<Rightarrow> [] | ch # r \<Rightarrow> if ch = CHR ''-'' \<or> ch = CHR ''+'' then r else s);
          z = takeWhile isDigit s'
      in if z = [] then NaN else roundToDouble (sign * digitsValue 0 z))"

section \<open>The clock\<close>

text \<open>
  One reading of the system clock (\<open>new Date()\<close>), with the fields the two predicates
  read: the local view and the UTC view of the same instant.
\<close>

record date =
  getHours :: int
  getMinutes :: int
  getSeconds :: int
  getDay :: int
  getUTCHours :: int
  getUTCMinutes :: int
  getUTCSeconds :: int
  getUTCDay :: int

text \<open>The ranges that the \<open>Date\<close> accessors guarantee.\<close>

definition valid_date :: "date \<Rightarrow> bool" where
  "valid_date d =
     (0 \<le> getHours d \<and> getHours d \<le> 23 \<and> 0 \<le> getMinutes d \<and> getMinutes d \<le> 59 \<and>
      0 \<le> getSeconds d \<and> getSeconds d \<le> 59 \<and> 0 \<le> getDay d \<and> getDay d \<le> 6 \<and>
      0 \<le> getUTCHours d \<and> getUTCHours d \<le> 23 \<and> 0 \<le> getUTCMinutes d \<and> getUTCMinutes d \<le> 59 \<and>
      0 \<le> getUTCSeconds d \<and> getUTCSeconds d \<le> 59 \<and> 0 \<le> getUTCDay d \<and> getUTCDay d \<le> 6)"

section \<open>timeRange.ts\<close>

definition secondsElapsedToday :: "jsnum \<Rightarrow> jsnum \<Rightarrow> jsnum \<Rightarrow> jsnum" where
  "secondsElapsedToday hh mm ss = js_add (js_add (js_mul hh (Num 3600)) (js_mul mm (Num 60))) ss"

definition getCurrentHour :: "bool \<Rightarrow> date \<Rightarrow> jsnum" where
  "getCurrentHour gmt currentDate =
     Num (if gmt then getUTCHours currentDate else getHours currentDate)"

definition getCurrentMinute :: "bool \<Rightarrow> date \<Rightarrow> jsnum" where
  "getCurrentMinute gmt currentDate =
     Num (if gmt then getUTCMinutes currentDate else getMinutes currentDate)"

definition getCurrentSecond :: "bool \<Rightarrow> date \<Rightarrow> jsnum" where
  "getCurrentSecond gmt currentDate =
     Num (if gmt then getUTCSeconds currentDate else getSeconds currentDate)"

text \<open>\<open>start <= value <= finish\<close>\<close>

definition valueInRange :: "jsnum \<Rightarrow> jsnum \<Rightarrow> jsnum \<Rightarrow> bool" where
  "valueInRange start v finish = (js_le start v \<and> js_le v finish)"

text \<open>\<open>args.pop()\<close>: the last element and the rest; \<open>undefined\<close> from an empty array.\<close>

definition pop :: "jsval list \<Rightarrow> jsval \<times> jsval list" where
  "pop args = (if args = [] then (JUndefined, []) else (last args, butlast args))"

text \<open>
  The arity dispatch of \<open>timeRange\<close> (the body after the time zone is settled), on the
  array \<open>args\<close> as it is after the \<open>pop\<close> and the conditional \<open>push\<close>. Every index
  read is below the length that the branch has just tested.
\<close>

definition timeRange_dispatch :: "bool \<Rightarrow> date \<Rightarrow> jsval list \<Rightarrow> bool" where
  "timeRange_dispatch useGMTzone currentDate args =
     (let noOfArgs = length args;
          numericArgs = map parseInt args
      in if noOfArgs = 1 then
           js_eq (getCurrentHour useGMTzone currentDate) (numericArgs ! 0)
         else if noOfArgs = 2 then
           (let currentHour = getCurrentHour useGMTzone currentDate
            in js_le (numericArgs ! 0) currentHour \<and> js_lt currentHour (numericArgs ! 1))
         else if noOfArgs = 4 then
           valueInRange
             (secondsElapsedToday (numericArgs ! 0) (numericArgs ! 1) (Num 0))
             (secondsElapsedToday
                (getCurrentHour useGMTzone currentDate)
                (getCurrentMinute useGMTzone currentDate)
                (Num 0))
             (secondsElapsedToday (numericArgs ! 2) (numericArgs ! 3) (Num 59))
         else if noOfArgs = 6 then
           valueInRange
             (secondsElapsedToday (numericArgs ! 0) (numericArgs ! 1) (numericArgs ! 2))
             (secondsElapsedToday
                (getCurrentHour useGMTzone currentDate)
                (getCurrentMinute useGMTzone currentDate)
                (getCurrentSecond useGMTzone currentDate))
             (secondsElapsedToday (numericArgs ! 3) (numericArgs ! 4) (numericArgs ! 5))
         else False)"

text \<open>
  \<open>timeRange\<close> on the clock reading \<open>currentDate\<close> and the list of its actual arguments.
\<close>

definition timeRange :: "date \<Rightarrow> jsval list \<Rightarrow> bool" where
  "timeRange currentDate arguments =
     (let (lastArg, args) = pop arguments;
          useGMTzone = (lastArg = JStr ''GMT'');
          args = (if \<not> useGMTzone then args @ [lastArg] else args)
      in timeRange_dispatch useGMTzone currentDate args)"

section \<open>weekdayRange.ts\<close>

definition weekdays :: "jsval list" where
  "weekdays =
     [JStr ''SUN'', JStr ''MON'', JStr ''TUE'', JStr ''WED'', JStr ''THU'', JStr ''FRI'',
      JStr ''SAT'']"

text \<open>
  \<open>Array.prototype.indexOf\<close>: the index of the first element strictly equal to \<open>v\<close>,
  or \<open>-1\<close>. On the values of \<open>jsval\<close> strict equality is equality.
\<close>

fun indexOf_from :: "int \<Rightarrow> 'a list \<Rightarrow> 'a \<Rightarrow> int" where
  "indexOf_from k [] v = - 1"
| "indexOf_from k (x # xs) v = (if x = v then k else indexOf_from (k + 1) xs v)"

definition indexOf :: "'a list \<Rightarrow> 'a \<Rightarrow> int" where
  "indexOf xs v = indexOf_from 0 xs v"

text \<open>
  Modelled from the spec: \<open>isGMT\<close> is imported from \<open>./util\<close>, which is not among the
  sources. The spec calls its argument the GMT/UTC marker, the case-sensitive literal
  \<open>"GMT"\<close>.
\<close>

definition isGMT :: "jsval \<Rightarrow> bool" where
  "isGMT v = (v = JStr ''GMT'')"

definition isWeekday :: "jsval \<Rightarrow> bool" where
  "isWeekday v = (indexOf weekdays v \<noteq> - 1)"

definition getTodaysDay :: "bool \<Rightarrow> date \<Rightarrow> int" where
  "getTodaysDay gmt currentDate = (if gmt then getUTCDay currentDate else getDay currentDate)"

text \<open>
  \<open>start <= value <= finish\<close>, the copy of \<open>valueInRange\<close> in \<open>weekdayRange.ts\<close>. Its
  arguments are results of \<open>indexOf\<close> and of \<open>getDay\<close> and the literals \<open>0\<close> and \<open>6\<close>:
  integers, never not-a-number.
\<close>

definition valueInRange_weekday :: "int \<Rightarrow> int \<Rightarrow> int \<Rightarrow> bool" where
  "valueInRange_weekday start v finish = (start \<le> v \<and> v \<le> finish)"

text \<open>
  \<open>weekdayRange(wd1, wd2, gmt)\<close> on the clock reading \<open>currentDate\<close>; an omitted
  parameter is \<open>JUndefined\<close>.
\<close>

definition weekdayRange :: "date \<Rightarrow> jsval \<Rightarrow> jsval \<Rightarrow> jsval \<Rightarrow> bool" where
  "weekdayRange currentDate wd1 wd2 gmt =
     (let (useGMTzone, wd2IsGmt) =
            (if isGMT gmt then (True, False)
             else if isGMT wd2 then (True, True)
             else (False, False));
          wd1Index = indexOf weekdays wd1;
          wd2Index = (if \<not> wd2IsGmt \<and> isWeekday wd2 then indexOf weekdays wd2 else - 1);
          todaysDay = getTodaysDay useGMTzone currentDate
      in if wd2Index < 0 then todaysDay = wd1Index
         else if wd1Index \<le> wd2Index then valueInRange_weekday wd1Index todaysDay wd2Index
         else valueInRange_weekday wd1Index todaysDay 6 \<or>
              valueInRange_weekday 0 todaysDay wd2Index)"

section \<open>The calls on a heap and a running clock\<close>

text \<open>
  To say what a call reads and what it leaves behind, the two functions are also written
  as state transformers. The state holds the arrays allocated so far, an array's address
  being its position, and the number of clock readings taken so far. The system clock is
  a function \<open>clock\<close>: \<open>clock n\<close> is the reading that the \<open>n\<close>-th \<open>new Date()\<close> returns.
\<close>

record world =
  heap :: "jsval list list"
  reads :: nat

definition new_Date :: "(nat \<Rightarrow> date) \<Rightarrow> world \<Rightarrow> date \<times> world" where
  "new_Date clock w = (clock (reads w), w\<lparr>reads := Suc (reads w)\<rparr>)"

definition new_Array :: "jsval list \<Rightarrow> world \<Rightarrow> nat \<times> world" where
  "new_Array xs w = (length (heap w), w\<lparr>heap := heap w @ [xs]\<rparr>)"

text \<open>\<open>Array.prototype.slice.call(a)\<close>: a new array with the elements of the array at \<open>a\<close>.\<close>

definition slice_call :: "nat \<Rightarrow> world \<Rightarrow> nat \<times> world" where
  "slice_call a w = new_Array (heap w ! a) w"

definition pop_at :: "nat \<Rightarrow> world \<Rightarrow> jsval \<times> world" where
  "pop_at a w = (let (v, rest) = pop (heap w ! a) in (v, w\<lparr>heap := (heap w)[a := rest]\<rparr>))"

definition push_at :: "nat \<Rightarrow> jsval \<Rightarrow> world \<Rightarrow> world" where
  "push_at a v w = w\<lparr>heap := (heap w)[a := heap w ! a @ [v]]\<rparr>"

text \<open>
  A call of \<open>timeRange\<close>: the actual arguments become the \<open>arguments\<close> object of the call,
  \<open>slice\<close> copies it, \<open>pop\<close> and \<open>push\<close> work on the copy, and the one \<open>new Date()\<close>
  takes the next reading of the clock.
\<close>

definition timeRange_st :: "(nat \<Rightarrow> date) \<Rightarrow> jsval list \<Rightarrow> world \<Rightarrow> bool \<times> world" where
  "timeRange_st clock actuals w =
     (let (arguments, w) = new_Array actuals w;
          (args, w) = slice_call arguments w;
          (lastArg, w) = pop_at args w;
          useGMTzone = (lastArg = JStr ''GMT'');
          (currentDate, w) = new_Date clock w;
          w = (if \<not> useGMTzone then push_at args lastArg w else w)
      in (timeRange_dispatch useGMTzone currentDate (heap w ! args), w))"

text \<open>
  The module \<open>weekdayRange.ts\<close> allocates its table \<open>weekdays\<close> when it is loaded, before
  any call: the table is the first array of the heap.
\<close>

definition weekdays_ref :: nat where
  "weekdays_ref = 0"

definition module_loaded :: "world \<Rightarrow> bool" where
  "module_loaded w = (weekdays_ref < length (heap w) \<and> heap w ! weekdays_ref = weekdays)"

definition isWeekday_st :: "jsval \<Rightarrow> world \<Rightarrow> bool" where
  "isWeekday_st v w = (indexOf (heap w ! weekdays_ref) v \<noteq> - 1)"

definition getTodaysDay_st :: "(nat \<Rightarrow> date) \<Rightarrow> bool \<Rightarrow> world \<Rightarrow> int \<times> world" where
  "getTodaysDay_st clock gmt w =
     (let (d, w) = new_Date clock w in (if gmt then getUTCDay d else getDay d, w))"

definition weekdayRange_st ::
  "(nat \<Rightarrow> date) \<Rightarrow> jsval \<Rightarrow> jsval \<Rightarrow> jsval \<Rightarrow> world \<Rightarrow> bool \<times> world" where
  "weekdayRange_st clock wd1 wd2 gmt w =
     (let (useGMTzone, wd2IsGmt) =
            (if isGMT gmt then (True, False)
             else if isGMT wd2 then (True, True)
             else (False, False));
          wd1Index = indexOf (heap w ! weekdays_ref) wd1;
          wd2Index =
            (if \<not> wd2IsGmt \<and> isWeekday_st wd2 w then indexOf (heap w ! weekdays_ref) wd2
             else - 1);
          (todaysDay, w) = getTodaysDay_st clock useGMTzone w
      in (if wd2Index < 0 then todaysDay = wd1Index
          else if wd1Index \<le> wd2Index then valueInRange_weekday wd1Index todaysDay wd2Index
          else valueInRange_weekday wd1Index todaysDay 6 \<or>
               valueInRange_weekday 0 todaysDay wd2Index,
          w))"

section \<open>Rounding\<close>

lemma roundHalfEven_lower: "0 < u \<Longrightarrow> (m div u) * u \<le> roundHalfEven u m"
  by (simp add: roundHalfEven_def Let_def mult_right_mono)

lemma roundHalfEven_upper: "0 < u \<Longrightarrow> roundHalfEven u m \<le> (m div u + 1) * u"
  by (simp add: roundHalfEven_def Let_def mult_right_mono)

lemma roundHalfEven_multiple: "0 < u \<Longrightarrow> roundHalfEven u (k * u) = k * u"
  by (simp add: roundHalfEven_def Let_def)

lemma roundHalfEven_mono:
  assumes u: "0 < u" and le: "m1 \<le> m2"
  shows "roundHalfEven u m1 \<le> roundHalfEven u m2"
proof -
  have q: "m1 div u \<le> m2 div u"
    using le u by (rule zdiv_mono1)
  show ?thesis
  proof (cases "m1 div u = m2 div u")
    case True
    have "m1 = (m1 div u) * u + m1 mod u" "m2 = (m2 div u) * u + m2 mod u"
      by simp_all
    with le True have r: "m1 mod u \<le> m2 mod u"
      by (metis add_le_cancel_left)
    show ?thesis
      using r u True
      by (auto simp: roundHalfEven_def Let_def mult_right_mono)
  next
    case False
    with q have "m1 div u + 1 \<le> m2 div u" by simp
    then have "(m1 div u + 1) * u \<le> (m2 div u) * u"
      using u by (simp add: mult_right_mono)
    then show ?thesis
      using roundHalfEven_upper [OF u, of m1] roundHalfEven_lower [OF u, of m2] by linarith
  qed
qed

lemma roundHalfEven_between:
  assumes u: "0 < u" and "lo * u \<le> m" and "m \<le> hi * u"
  shows "lo * u \<le> roundHalfEven u m \<and> roundHalfEven u m \<le> hi * u"
  using roundHalfEven_mono [OF u assms(2)] roundHalfEven_mono [OF u assms(3)]
  by (simp add: roundHalfEven_multiple u)

lemma bitlen_unique:
  assumes "1 \<le> e" and "2 ^ (e - 1) \<le> x" and "x < 2 ^ e"
  shows "bitlen x = int e"
proof -
  have pos: "0 < x"
    using assms(2) by (smt (verit) zero_less_power)
  note b = bitlen_bounds [OF pos]
  from b assms(2) have "(2::int) ^ nat (bitlen x - 1) < 2 ^ e"
    using assms(3) by linarith
  then have 1: "nat (bitlen x - 1) < e"
    by (simp add: power_strict_increasing_iff)
  from b assms(2) have "(2::int) ^ (e - 1) < 2 ^ nat (bitlen x)"
    by linarith
  then have 2: "e - 1 < nat (bitlen x)"
    by (simp add: power_strict_increasing_iff)
  from 1 2 assms(1) show ?thesis
    by linarith
qed

lemma binade:
  assumes "2 ^ 53 \<le> (m::int)"
  obtains e where "54 \<le> e" and "bitlen m = int e" and "2 ^ 52 * 2 ^ (e - 53) \<le> m"
    and "m < 2 ^ 53 * 2 ^ (e - 53)"
proof -
  have pos: "0 < m"
    using assms by (smt (verit) zero_less_power)
  note b = bitlen_bounds [OF pos]
  define e where "e = nat (bitlen m)"
  from b assms have "(2::int) ^ 53 < 2 ^ e"
    unfolding e_def by linarith
  then have e: "53 < e"
    by (rule power_less_imp_less_exp [rotated]) simp
  then have be: "bitlen m = int e"
    unfolding e_def using bitlen_nonneg [of m] by simp
  have "52 + (e - 53) = e - 1" "53 + (e - 53) = e"
    using e by simp_all
  then have p1: "(2::int) ^ 52 * 2 ^ (e - 53) = 2 ^ (e - 1)"
    and p2: "(2::int) ^ 53 * 2 ^ (e - 53) = 2 ^ e"
    by (simp_all only: flip: power_add)
  have "nat (bitlen m - 1) = e - 1"
    using be by simp
  with b have "2 ^ (e - 1) \<le> m" "m < 2 ^ e"
    by (simp_all add: e_def)
  then have "2 ^ 52 * 2 ^ (e - 53) \<le> m" "m < 2 ^ 53 * 2 ^ (e - 53)"
    by (simp_all only: p1 p2)
  with e be that [of e] show thesis
    by simp
qed

lemma roundMagnitude_binade:
  assumes "54 \<le> e" and "bitlen m = int e" and "2 ^ 52 * 2 ^ (e - 53) \<le> m"
    and "m < 2 ^ 53 * 2 ^ (e - 53)"
  shows "roundMagnitude m = roundHalfEven (2 ^ (e - 53)) m"
proof -
  have "(2::int) ^ 53 \<le> 2 ^ 52 * 2 ^ (e - 53)"
  proof -
    have "(2::int) ^ 1 \<le> 2 ^ (e - 53)"
      using assms(1) by (intro power_increasing) simp_all
    then show ?thesis by simp
  qed
  with assms(3) have "\<not> m < 2 ^ 53" by linarith
  moreover have "nat (bitlen m - 53) = e - 53"
    using assms(2) by simp
  ultimately show ?thesis
    by (simp add: roundMagnitude_def)
qed

lemma roundMagnitude_bounds:
  assumes "54 \<le> e" and "bitlen m = int e" and "2 ^ 52 * 2 ^ (e - 53) \<le> m"
    and "m < 2 ^ 53 * 2 ^ (e - 53)"
  shows "2 ^ 52 * 2 ^ (e - 53) \<le> roundMagnitude m \<and> roundMagnitude m \<le> 2 ^ 53 * 2 ^ (e - 53)"
  unfolding roundMagnitude_binade [OF assms]
  using assms(3,4) by (intro roundHalfEven_between) simp_all

lemma binade_powers:
  assumes "54 \<le> e"
  shows "(2::int) ^ 52 * 2 ^ (e - 53) = 2 ^ (e - 1)" and "(2::int) ^ 53 * 2 ^ (e - 53) = 2 ^ e"
proof -
  have "52 + (e - 53) = e - 1" "53 + (e - 53) = e"
    using assms by simp_all
  then show "(2::int) ^ 52 * 2 ^ (e - 53) = 2 ^ (e - 1)"
    and "(2::int) ^ 53 * 2 ^ (e - 53) = 2 ^ e"
    by (simp_all only: flip: power_add)
qed

lemma bitlen_mono: "a \<le> b \<Longrightarrow> bitlen a \<le> bitlen b"
  by (simp add: bitlen_def floorlog_mono)

lemma roundMagnitude_small: "m < 2 ^ 53 \<Longrightarrow> roundMagnitude m = m"
  by (simp add: roundMagnitude_def)

lemma roundMagnitude_large:
  assumes "2 ^ 53 \<le> m"
  shows "2 ^ 53 \<le> roundMagnitude m"
proof -
  obtain e where e: "54 \<le> e" "bitlen m = int e" "2 ^ 52 * 2 ^ (e - 53) \<le> m"
    "m < 2 ^ 53 * 2 ^ (e - 53)"
    using assms by (rule binade)
  have "(2::int) ^ 53 \<le> 2 ^ (e - 1)"
    using e(1) by (intro power_increasing) simp_all
  also have "\<dots> = 2 ^ 52 * 2 ^ (e - 53)"
    by (simp only: binade_powers [OF e(1)])
  also have "\<dots> \<le> roundMagnitude m"
    using roundMagnitude_bounds [OF e] by simp
  finally show ?thesis .
qed

lemma roundMagnitude_mono:
  assumes "m1 \<le> m2"
  shows "roundMagnitude m1 \<le> roundMagnitude m2"
proof (cases "m2 < 2 ^ 53")
  case True
  with assms show ?thesis by (simp add: roundMagnitude_small)
next
  case m2: False
  show ?thesis
  proof (cases "m1 < 2 ^ 53")
    case True
    then have "roundMagnitude m1 < 2 ^ 53" by (simp add: roundMagnitude_small)
    also have "\<dots> \<le> roundMagnitude m2"
      using m2 by (intro roundMagnitude_large) simp
    finally show ?thesis by simp
  next
    case m1: False
    then have m1': "2 ^ 53 \<le> m1" by simp
    from m2 have m2': "2 ^ 53 \<le> m2" by simp
    obtain e1 where e1: "54 \<le> e1" "bitlen m1 = int e1" "2 ^ 52 * 2 ^ (e1 - 53) \<le> m1"
      "m1 < 2 ^ 53 * 2 ^ (e1 - 53)"
      using m1' by (rule binade)
    obtain e2 where e2: "54 \<le> e2" "bitlen m2 = int e2" "2 ^ 52 * 2 ^ (e2 - 53) \<le> m2"
      "m2 < 2 ^ 53 * 2 ^ (e2 - 53)"
      using m2' by (rule binade)
    have le: "e1 \<le> e2"
      using bitlen_mono [OF assms] e1(2) e2(2) by simp
    show ?thesis
    proof (cases "e1 = e2")
      case True
      have "roundHalfEven (2 ^ (e2 - 53)) m1 \<le> roundHalfEven (2 ^ (e2 - 53)) m2"
        using assms by (intro roundHalfEven_mono) simp_all
      then show ?thesis
        using roundMagnitude_binade [OF e1] roundMagnitude_binade [OF e2] True by simp
    next
      case False
      with le have lt: "e1 \<le> e2 - 1" by simp
      have "roundMagnitude m1 \<le> 2 ^ 53 * 2 ^ (e1 - 53)"
        using roundMagnitude_bounds [OF e1] by simp
      also have "\<dots> = 2 ^ e1"
        by (simp only: binade_powers [OF e1(1)])
      also have "\<dots> \<le> 2 ^ (e2 - 1)"
        using lt by (intro power_increasing) simp_all
      also have "\<dots> = 2 ^ 52 * 2 ^ (e2 - 53)"
        by (simp only: binade_powers [OF e2(1)])
      also have "\<dots> \<le> roundMagnitude m2"
        using roundMagnitude_bounds [OF e2] by simp
      finally show ?thesis .
    qed
  qed
qed

lemma roundMagnitude_idem: "roundMagnitude (roundMagnitude m) = roundMagnitude m"
proof (cases "m < 2 ^ 53")
  case True
  then show ?thesis by (simp add: roundMagnitude_small)
next
  case False
  then have "2 ^ 53 \<le> m" by simp
  then obtain e where e: "54 \<le> e" "bitlen m = int e" "2 ^ 52 * 2 ^ (e - 53) \<le> m"
    "m < 2 ^ 53 * 2 ^ (e - 53)"
    by (rule binade)
  define u :: int where "u = 2 ^ (e - 53)"
  have u: "0 < u" by (simp add: u_def)
  define k where "k = roundMagnitude m div u"
  have R: "roundMagnitude m = k * u"
    unfolding k_def roundMagnitude_binade [OF e] u_def [symmetric]
    by (simp add: roundHalfEven_def Let_def)
  have b: "2 ^ 52 * u \<le> k * u" "k * u \<le> 2 ^ 53 * u"
    using roundMagnitude_bounds [OF e] unfolding R u_def by simp_all
  show ?thesis
  proof (cases "k * u < 2 ^ 53 * u")
    case True
    have "bitlen (k * u) = int e"
    proof (rule bitlen_unique)
      show "1 \<le> e" using e(1) by simp
      show "2 ^ (e - 1) \<le> k * u"
        using b(1) unfolding u_def by (simp only: binade_powers [OF e(1)])
      show "k * u < 2 ^ e"
        using True unfolding u_def by (simp only: binade_powers [OF e(1)])
    qed
    then have "roundMagnitude (k * u) = roundHalfEven u (k * u)"
      unfolding u_def using e(1) b(1) True
      by (intro roundMagnitude_binade) (simp_all add: u_def)
    then show ?thesis
      unfolding R by (simp add: roundHalfEven_multiple u)
  next
    case False
    with b(2) have keq: "k * u = 2 ^ 53 * u" by simp
    have e1: "54 \<le> Suc e" using e(1) by simp
    have u2: "(2::int) ^ (Suc e - 53) = 2 * u"
    proof -
      have "Suc e - 53 = Suc (e - 53)" using e(1) by simp
      then show ?thesis by (simp add: u_def)
    qed
    have v: "k * u = 2 ^ e"
    proof -
      have "k * u = 2 ^ 53 * 2 ^ (e - 53)"
        using keq by (simp only: u_def)
      also have "\<dots> = 2 ^ e"
        by (rule binade_powers(2) [OF e(1)])
      finally show ?thesis .
    qed
    have bl: "bitlen (k * u) = int (Suc e)"
      unfolding v by (rule bitlen_unique) simp_all
    have "roundMagnitude (k * u) = roundHalfEven (2 ^ (Suc e - 53)) (k * u)"
    proof (rule roundMagnitude_binade [OF e1 bl])
      show "2 ^ 52 * 2 ^ (Suc e - 53) \<le> k * u"
        unfolding v by (simp only: binade_powers [OF e1]) simp
      show "k * u < 2 ^ 53 * 2 ^ (Suc e - 53)"
        unfolding v by (simp only: binade_powers [OF e1]) simp
    qed
    also have "\<dots> = roundHalfEven (2 * u) (2 ^ 52 * (2 * u))"
      unfolding u2 keq by simp
    also have "\<dots> = 2 ^ 52 * (2 * u)"
      using u by (intro roundHalfEven_multiple) simp
    also have "\<dots> = k * u"
      unfolding keq by simp
    finally show ?thesis
      unfolding R .
  qed
qed

lemma roundMagnitude_nonneg: "0 \<le> m \<Longrightarrow> 0 \<le> roundMagnitude m"
  using roundMagnitude_mono [of 0 m] by (simp add: roundMagnitude_small)

lemma roundToDouble_small: "\<bar>n\<bar> < 2 ^ 53 \<Longrightarrow> roundToDouble n = Num n"
  by (simp add: roundToDouble_def roundMagnitude_small Let_def)

lemma roundToDouble_not_NaN: "roundToDouble n \<noteq> NaN"
  by (simp add: roundToDouble_def Let_def)

lemma roundToDouble_mono:
  assumes "a \<le> b"
  shows "js_le (roundToDouble a) (roundToDouble b)"
proof -
  have nn: "0 \<le> roundMagnitude \<bar>a\<bar>" "0 \<le> roundMagnitude \<bar>b\<bar>"
    by (simp_all add: roundMagnitude_nonneg)
  consider "0 \<le> a" | "a < 0" "0 \<le> b" | "b < 0"
    by linarith
  then show ?thesis
  proof cases
    case 1
    with assms have "roundMagnitude \<bar>a\<bar> \<le> roundMagnitude \<bar>b\<bar>"
      by (intro roundMagnitude_mono) simp
    with 1 assms show ?thesis
      by (auto simp: roundToDouble_def Let_def)
  next
    case 2
    with nn show ?thesis
      by (auto simp: roundToDouble_def Let_def)
  next
    case 3
    with assms have "roundMagnitude \<bar>b\<bar> \<le> roundMagnitude \<bar>a\<bar>"
      by (intro roundMagnitude_mono) simp
    with 3 assms show ?thesis
      by (auto simp: roundToDouble_def Let_def)
  qed
qed

lemma roundToDouble_idem:
  assumes "roundToDouble a = Num r"
  shows "roundToDouble r = Num r"
proof -
  define m where "m = roundMagnitude \<bar>a\<bar>"
  have m0: "0 \<le> m"
    by (simp add: m_def roundMagnitude_nonneg)
  from assms have lt: "m < 2 ^ 1024" and r: "r = (if a < 0 then - m else m)"
    by (auto simp: roundToDouble_def Let_def m_def split: if_splits)
  from r m0 have abs: "\<bar>r\<bar> = m" by auto
  have "roundMagnitude \<bar>r\<bar> = m"
    unfolding abs unfolding m_def by (rule roundMagnitude_idem)
  moreover have "(if r < 0 then - m else m) = r"
    using r m0 by auto
  ultimately show ?thesis
    using lt by (simp add: roundToDouble_def Let_def)
qed

lemma js_add_zero:
  assumes "x = roundToDouble a"
  shows "js_add x (Num 0) = x"
proof (cases x)
  case (Num r)
  with assms have "roundToDouble r = Num r"
    by (metis roundToDouble_idem)
  with Num show ?thesis by simp
qed (use assms roundToDouble_not_NaN in auto)

lemma js_add_nonneg:
  assumes "x = roundToDouble a" and "0 \<le> c"
  shows "js_le x (js_add x (Num c))"
proof (cases x)
  case (Num r)
  with assms have "roundToDouble r = Num r"
    by (metis roundToDouble_idem)
  then have "js_le (Num r) (roundToDouble (r + c))"
    using roundToDouble_mono [of r "r + c"] assms(2) by simp
  with Num show ?thesis by simp
qed (use assms roundToDouble_not_NaN in auto)

section \<open>Numbers and parsing\<close>

lemma digitChar_isDigit: "0 \<le> d \<Longrightarrow> d < 10 \<Longrightarrow> isDigit (digitChar d)"
  by (simp add: isDigit_def digitChar_def nat_add_distrib)

lemma digitVal_digitChar: "0 \<le> d \<Longrightarrow> d < 10 \<Longrightarrow> digitVal (digitChar d) = d"
  by (simp add: digitVal_def digitChar_def nat_add_distrib)

lemma digits_all_digit: "0 \<le> n \<Longrightarrow> ch \<in> set (digits n) \<Longrightarrow> isDigit ch"
proof (induction n rule: digits.induct)
  case (1 n)
  show ?case
  proof (cases "n < 10")
    case True
    with "1.prems" show ?thesis by (subst (asm) digits.simps) (simp add: digitChar_isDigit)
  next
    case False
    with "1.prems" have "ch \<in> set (digits (n div 10)) \<or> ch = digitChar (n mod 10)"
      by (subst (asm) digits.simps) auto
    moreover have "0 \<le> n div 10" "0 \<le> n mod 10" "n mod 10 < 10"
      using "1.prems"(1) by simp_all
    ultimately show ?thesis
      using False "1.IH" by (auto simp: digitChar_isDigit)
  qed
qed

lemma digits_hd: "0 \<le> n \<Longrightarrow> \<exists>d cs. 0 \<le> d \<and> d < 10 \<and> digits n = digitChar d # cs"
proof (induction n rule: digits.induct)
  case (1 n)
  show ?case
  proof (cases "n < 10")
    case True
    with "1.prems" show ?thesis by (subst digits.simps) auto
  next
    case False
    moreover have "0 \<le> n div 10"
      using "1.prems" by simp
    ultimately obtain d cs where "0 \<le> d" "d < 10" "digits (n div 10) = digitChar d # cs"
      using "1.IH" by blast
    with False have "digits n = digitChar d # (cs @ [digitChar (n mod 10)])"
      by (subst digits.simps) simp
    with \<open>0 \<le> d\<close> \<open>d < 10\<close> show ?thesis by blast
  qed
qed

lemma digitsValue_append: "digitsValue acc (xs @ ys) = digitsValue (digitsValue acc xs) ys"
  by (induction xs arbitrary: acc) auto

lemma digitsValue_digits: "0 \<le> n \<Longrightarrow> digitsValue 0 (digits n) = n"
proof (induction n rule: digits.induct)
  case (1 n)
  show ?case
  proof (cases "n < 10")
    case True
    with "1.prems" show ?thesis by (subst digits.simps) (simp add: digitVal_digitChar)
  next
    case False
    have nn: "0 \<le> n div 10" "0 \<le> n mod 10" "n mod 10 < 10"
      using "1.prems" by simp_all
    have "digitsValue 0 (digits n) = digitsValue 0 (digits (n div 10) @ [digitChar (n mod 10)])"
      using False by (subst digits.simps) simp
    also have "\<dots> = (n div 10) * 10 + n mod 10"
      using False "1.IH" nn by (simp add: digitsValue_append digitVal_digitChar)
    also have "\<dots> = n"
      by simp
    finally show ?thesis .
  qed
qed

lemma takeWhile_digits: "0 \<le> n \<Longrightarrow> takeWhile isDigit (digits n) = digits n"
  by (simp add: takeWhile_eq_all_conv digits_all_digit)

lemma isDigit_not_other:
  "isDigit ch \<Longrightarrow> \<not> isWhiteSpace ch \<and> ch \<noteq> CHR ''-'' \<and> ch \<noteq> CHR ''+''"
  by (auto simp: isDigit_def isWhiteSpace_def Let_def)

lemma parseInt_unsigned:
  assumes "ToString v = ch # cs" and "isDigit ch" and "takeWhile isDigit cs = cs"
  shows "parseInt v = roundToDouble (digitsValue 0 (ch # cs))"
  using assms isDigit_not_other [of ch]
  by (simp add: parseInt_def Let_def takeWhile_eq_all_conv [THEN iffD2])

lemma parseInt_negative:
  assumes "ToString v = CHR ''-'' # ch # cs" and "isDigit ch" and "takeWhile isDigit cs = cs"
  shows "parseInt v = roundToDouble (- digitsValue 0 (ch # cs))"
proof -
  have "\<not> isWhiteSpace CHR ''-''" by (simp add: isWhiteSpace_def)
  then show ?thesis using assms
    by (simp add: parseInt_def Let_def takeWhile_eq_all_conv [THEN iffD2])
qed

lemma digits_shape:
  assumes "0 \<le> n"
  shows "\<exists>ch cs. digits n = ch # cs \<and> isDigit ch \<and> takeWhile isDigit cs = cs"
proof -
  obtain d cs where d: "0 \<le> d" "d < 10" "digits n = digitChar d # cs"
    using digits_hd [OF assms] by blast
  have "takeWhile isDigit (digitChar d # cs) = digitChar d # cs"
    using takeWhile_digits [OF assms] d by simp
  then have "takeWhile isDigit cs = cs"
    using d by (simp add: digitChar_isDigit)
  with d show ?thesis by (auto simp: digitChar_isDigit)
qed

lemma ToString_small:
  assumes "\<bar>n\<bar> < 2 ^ 53"
  shows "ToString (JNum n) = (if n < 0 then CHR ''-'' # digits (- n) else digits n)"
  using assms by (auto simp: roundToDouble_small numberToString_def Let_def)

lemma parseInt_JNum:
  assumes "\<bar>n\<bar> < 2 ^ 53"
  shows "parseInt (JNum n) = Num n"
proof (cases "n < 0")
  case False
  then obtain ch cs where s: "digits n = ch # cs" "isDigit ch" "takeWhile isDigit cs = cs"
    using digits_shape [of n] by auto
  have ts: "ToString (JNum n) = digits n"
    using False ToString_small [OF assms] by (simp del: ToString.simps)
  have "parseInt (JNum n) = roundToDouble (digitsValue 0 (ch # cs))"
  proof (rule parseInt_unsigned)
    show "ToString (JNum n) = ch # cs" unfolding ts by (rule s(1))
    show "isDigit ch" by (rule s(2))
    show "takeWhile isDigit cs = cs" by (rule s(3))
  qed
  also have "digitsValue 0 (ch # cs) = n"
    using digitsValue_digits [of n] s False by simp
  finally show ?thesis
    using assms by (simp add: roundToDouble_small)
next
  case True
  then obtain ch cs where s: "digits (- n) = ch # cs" "isDigit ch" "takeWhile isDigit cs = cs"
    using digits_shape [of "- n"] by auto
  have ts: "ToString (JNum n) = CHR ''-'' # digits (- n)"
    using True ToString_small [OF assms] by (simp del: ToString.simps)
  have "parseInt (JNum n) = roundToDouble (- digitsValue 0 (ch # cs))"
  proof (rule parseInt_negative)
    show "ToString (JNum n) = CHR ''-'' # ch # cs" unfolding ts by (simp add: s(1))
    show "isDigit ch" by (rule s(2))
    show "takeWhile isDigit cs = cs" by (rule s(3))
  qed
  also have "digitsValue 0 (ch # cs) = - n"
    using digitsValue_digits [of "- n"] s True by simp
  finally show ?thesis
    using assms by (simp add: roundToDouble_small)
qed

lemma parseInt_GMT: "parseInt (JStr ''GMT'') = NaN"
  by (simp add: parseInt_def isWhiteSpace_def isDigit_def)

lemma parseInt_undefined: "parseInt JUndefined = NaN"
  by (simp add: parseInt_def isWhiteSpace_def isDigit_def)

section \<open>The model on large values\<close>

text \<open>
  From \<open>2^53\<close> on the doubles of the source round, and Number::toString switches to the
  exponent form at \<open>10^21\<close>. The embedding follows: \<open>parseInt(1e21, 10)\<close> reads the
  text \<open>1e+21\<close> and is 1, \<open>parseInt("9007199254740993", 10)\<close> is the even neighbour
  \<open>2^53\<close>, and \<open>140737488355329 * 3600 + (-8444249301319680) * 60 + 0\<close> is 3584 in
  doubles where the exact sum is 3600, which decides the two calls below.
\<close>

lemma parseInt_exponent_form: "parseInt (JNum (10 ^ 21)) = Num 1"
  by code_simp

lemma parseInt_nearest_double: "parseInt (JStr ''9007199254740993'') = Num 9007199254740992"
  by code_simp

lemma ToString_shortest: "ToString (JNum (2 ^ 60)) = ''1152921504606847000''"
  by code_simp

lemma ToString_carry: "ToString (JNum (10 ^ 23)) = ''1e+23''"
  by code_simp

lemma seconds_rounded:
  "secondsElapsedToday (Num 140737488355329) (Num (- 8444249301319680)) (Num 0) = Num 3584"
  by code_simp

lemma timeRange_rounded_six:
  "timeRange \<lparr>getHours = 0, getMinutes = 59, getSeconds = 50, getDay = 1,
      getUTCHours = 0, getUTCMinutes = 59, getUTCSeconds = 50, getUTCDay = 1\<rparr>
      [JNum 140737488355329, JNum (- 8444249301319680), JNum 0, JNum 23, JNum 59, JNum 59]"
  by code_simp

lemma timeRange_rounded_four:
  "\<not> timeRange \<lparr>getHours = 3, getMinutes = 0, getSeconds = 0, getDay = 1,
      getUTCHours = 3, getUTCMinutes = 0, getUTCSeconds = 0, getUTCDay = 1\<rparr>
      [JNum 140737488355331, JNum (- 8444249301319680), JNum 23, JNum 59]"
  by code_simp

section \<open>The arity dispatch\<close>

lemma js_NaN_simps [simp]:
  "js_le x NaN = False" "js_lt x NaN = False" "js_eq x NaN = False"
  "js_add x NaN = NaN" "js_mul x NaN = NaN"
  by (cases x; simp)+

lemma timeRange_GMT: "timeRange d (args @ [JStr ''GMT'']) = timeRange_dispatch True d args"
  by (simp add: timeRange_def pop_def)

lemma timeRange_local:
  "args \<noteq> [] \<Longrightarrow> last args \<noteq> JStr ''GMT'' \<Longrightarrow> timeRange d args = timeRange_dispatch False d args"
  by (simp add: timeRange_def pop_def)

lemma timeRange_no_arguments: "timeRange d [] = timeRange_dispatch False d [JUndefined]"
  by (simp add: timeRange_def pop_def)

lemma dispatch_1: "timeRange_dispatch g d [a] = js_eq (getCurrentHour g d) (parseInt a)"
  by (simp add: timeRange_dispatch_def)

lemma dispatch_2:
  "timeRange_dispatch g d [a1, a2] =
     (js_le (parseInt a1) (getCurrentHour g d) \<and> js_lt (getCurrentHour g d) (parseInt a2))"
  by (simp add: timeRange_dispatch_def Let_def)

lemma dispatch_4:
  "timeRange_dispatch g d [a1, a2, a3, a4] =
     valueInRange (secondsElapsedToday (parseInt a1) (parseInt a2) (Num 0))
       (secondsElapsedToday (getCurrentHour g d) (getCurrentMinute g d) (Num 0))
       (secondsElapsedToday (parseInt a3) (parseInt a4) (Num 59))"
  by (simp add: timeRange_dispatch_def)

lemma dispatch_6:
  "timeRange_dispatch g d [a1, a2, a3, a4, a5, a6] =
     valueInRange (secondsElapsedToday (parseInt a1) (parseInt a2) (parseInt a3))
       (secondsElapsedToday (getCurrentHour g d) (getCurrentMinute g d) (getCurrentSecond g d))
       (secondsElapsedToday (parseInt a4) (parseInt a5) (parseInt a6))"
  by (simp add: timeRange_dispatch_def)

lemma dispatch_other:
  "length args \<noteq> 1 \<Longrightarrow> length args \<noteq> 2 \<Longrightarrow> length args \<noteq> 4 \<Longrightarrow> length args \<noteq> 6 \<Longrightarrow>
     timeRange_dispatch g d args = False"
  by (simp add: timeRange_dispatch_def)





lemma seconds_NaN [simp]:
  "secondsElapsedToday NaN m s = NaN" "secondsElapsedToday h NaN s = NaN"
  "secondsElapsedToday h m NaN = NaN"
  by (simp_all add: secondsElapsedToday_def)

lemma valueInRange_NaN [simp]:
  "valueInRange NaN v f = False" "valueInRange s NaN f = False" "valueInRange s v NaN = False"
  by (simp_all add: valueInRange_def)


lemma parseInt_Num_not_GMT: "parseInt a = Num n \<Longrightarrow> a \<noteq> JStr ''GMT''"
  using parseInt_GMT by auto

lemma parseInt_digit_string:
  assumes "s \<noteq> []" and "\<forall>ch \<in> set s. isDigit ch"
  shows "parseInt (JStr s) = roundToDouble (digitsValue 0 s)"
proof -
  from assms obtain ch cs where s: "s = ch # cs" by (cases s) auto
  with assms have "isDigit ch" "takeWhile isDigit cs = cs"
    by (simp_all add: takeWhile_eq_all_conv)
  with s show ?thesis by (simp add: parseInt_unsigned)
qed

lemma parseInt_no_digit:
  assumes "\<not> isWhiteSpace ch" and "ch \<noteq> CHR ''-''" and "ch \<noteq> CHR ''+''" and "\<not> isDigit ch"
  shows "parseInt (JStr (ch # cs)) = NaN"
  using assms by (simp add: parseInt_def)

lemma seconds_hour_only:
  "secondsElapsedToday (Num h) (Num 0) (Num s) = js_add (roundToDouble (h * 3600)) (Num s)"
  by (simp add: secondsElapsedToday_def roundToDouble_small js_add_zero [OF refl])

section \<open>Claims on timeRange\<close>

text \<open>
  Claim C4. The two-argument form \<open>timeRange(hour1, hour2)\<close> is true iff
  \<open>hour1 <= currentHour < hour2\<close>, the hour being the local one, or the UTC one when
  \<open>"GMT"\<close> follows. The upper bound is excluded: when the current hour is \<open>hour2\<close>
  the result is false. The lower bound is included: when the current hour is \<open>hour1\<close>
  the result is true as soon as the window is not empty (\<open>hour1 < hour2\<close>). The
  four-argument form with the same hours and minutes \<open>0\<close> is still true at \<open>hour2:00\<close>,
  where the two-argument form is false.
\<close>

theorem timeRange_two_hours_half_open:
  assumes "parseInt a1 = Num h1" and "parseInt a2 = Num h2"
  shows "(timeRange d [a1, a2] \<longleftrightarrow> h1 \<le> getHours d \<and> getHours d < h2) \<and>
         (timeRange d [a1, a2, JStr ''GMT''] \<longleftrightarrow> h1 \<le> getUTCHours d \<and> getUTCHours d < h2) \<and>
         (getHours d = h2 \<longrightarrow> \<not> timeRange d [a1, a2]) \<and>
         (getHours d = h1 \<longrightarrow> (timeRange d [a1, a2] \<longleftrightarrow> h1 < h2)) \<and>
         (getHours d = h2 \<and> getMinutes d = 0 \<and> h1 \<le> h2 \<longrightarrow>
            timeRange d [a1, JNum 0, a2, JNum 0] \<and> \<not> timeRange d [a1, a2])"
proof -
  have ne: "a2 \<noteq> JStr ''GMT''"
    using assms(2) by (rule parseInt_Num_not_GMT)
  have local: "timeRange d [a1, a2] \<longleftrightarrow> h1 \<le> getHours d \<and> getHours d < h2"
    using assms ne by (simp add: timeRange_local dispatch_2 getCurrentHour_def)
  have "timeRange d ([a1, a2] @ [JStr ''GMT'']) \<longleftrightarrow> h1 \<le> getUTCHours d \<and> getUTCHours d < h2"
    using assms by (simp only: timeRange_GMT) (simp add: dispatch_2 getCurrentHour_def)
  then have utc: "timeRange d [a1, a2, JStr ''GMT''] \<longleftrightarrow> h1 \<le> getUTCHours d \<and> getUTCHours d < h2"
    by simp
  have four: "timeRange d [a1, JNum 0, a2, JNum 0]" if "getHours d = h2" "getMinutes d = 0" "h1 \<le> h2"
  proof -
    have "js_le (roundToDouble (h1 * 3600)) (roundToDouble (h2 * 3600))"
      using that(3) by (intro roundToDouble_mono) simp
    moreover have "js_le (roundToDouble (h2 * 3600)) (js_add (roundToDouble (h2 * 3600)) (Num 59))"
      by (intro js_add_nonneg [OF refl]) simp
    ultimately show ?thesis
      using assms that(1,2)
      by (simp add: timeRange_local dispatch_4 parseInt_JNum valueInRange_def
          seconds_hour_only js_add_zero [OF refl] getCurrentHour_def getCurrentMinute_def)
  qed
  show ?thesis
    using local utc four by auto
qed

theorem timeRange_two_hours_half_open_witness:
  "\<not> timeRange \<lparr>getHours = 17, getMinutes = 0, getSeconds = 0, getDay = 1,
       getUTCHours = 9, getUTCMinutes = 0, getUTCSeconds = 0, getUTCDay = 1\<rparr> [JNum 9, JNum 17] \<and>
   timeRange \<lparr>getHours = 17, getMinutes = 0, getSeconds = 0, getDay = 1,
       getUTCHours = 9, getUTCMinutes = 0, getUTCSeconds = 0, getUTCDay = 1\<rparr>
     [JNum 9, JNum 17, JStr ''GMT''] \<and>
   timeRange \<lparr>getHours = 17, getMinutes = 0, getSeconds = 0, getDay = 1,
       getUTCHours = 9, getUTCMinutes = 0, getUTCSeconds = 0, getUTCDay = 1\<rparr>
     [JNum 9, JNum 0, JNum 17, JNum 0] \<and>
   timeRange \<lparr>getHours = 9, getMinutes = 0, getSeconds = 0, getDay = 1,
       getUTCHours = 1, getUTCMinutes = 0, getUTCSeconds = 0, getUTCDay = 1\<rparr> [JNum 9, JNum 17]"
  using
    timeRange_two_hours_half_open [of "JNum 9" 9 "JNum 17" 17
      "\<lparr>getHours = 17, getMinutes = 0, getSeconds = 0, getDay = 1,
        getUTCHours = 9, getUTCMinutes = 0, getUTCSeconds = 0, getUTCDay = 1\<rparr>"]
    timeRange_two_hours_half_open [of "JNum 9" 9 "JNum 17" 17
      "\<lparr>getHours = 9, getMinutes = 0, getSeconds = 0, getDay = 1,
        getUTCHours = 1, getUTCMinutes = 0, getUTCSeconds = 0, getUTCDay = 1\<rparr>"]
  by (simp add: parseInt_JNum)

text \<open>
  Claim C7. When the number of arguments, a trailing \<open>"GMT"\<close> not counted, is none of
  1, 2, 4 and 6, \<open>timeRange\<close> returns false on every clock reading. The call returns a
  boolean in every case: the source has no \<open>throw\<close>, and a call with no argument at all
  compares the hour with \<open>parseInt(undefined)\<close>.
\<close>

theorem timeRange_unsupported_arity:
  assumes "(if args \<noteq> [] \<and> last args = JStr ''GMT'' then length args - 1 else length args)
             \<notin> {1, 2, 4, 6}"
  shows "timeRange d args = False"
proof (cases "args = []")
  case True
  then show ?thesis
    by (simp add: timeRange_no_arguments dispatch_1 parseInt_undefined)
next
  case False
  show ?thesis
  proof (cases "last args = JStr ''GMT''")
    case True
    with False have "args = butlast args @ [JStr ''GMT'']"
      by (metis append_butlast_last_id)
    then have "timeRange d args = timeRange_dispatch True d (butlast args)"
      by (metis timeRange_GMT)
    also have "\<dots> = False"
      using assms False True by (intro dispatch_other) auto
    finally show ?thesis .
  next
    case ng: False
    with False have "timeRange d args = timeRange_dispatch False d args"
      by (simp add: timeRange_local)
    also have "\<dots> = False"
      using assms False ng by (intro dispatch_other) auto
    finally show ?thesis .
  qed
qed

theorem timeRange_unsupported_arity_witness:
  "\<not> timeRange \<lparr>getHours = 1, getMinutes = 2, getSeconds = 3, getDay = 1,
       getUTCHours = 1, getUTCMinutes = 2, getUTCSeconds = 3, getUTCDay = 1\<rparr>
       [JNum 1, JNum 2, JNum 3] \<and>
   \<not> timeRange \<lparr>getHours = 1, getMinutes = 2, getSeconds = 3, getDay = 1,
       getUTCHours = 1, getUTCMinutes = 2, getUTCSeconds = 3, getUTCDay = 1\<rparr>
       [JNum 1, JNum 2, JNum 3, JStr ''GMT''] \<and>
   \<not> timeRange \<lparr>getHours = 1, getMinutes = 2, getSeconds = 3, getDay = 1,
       getUTCHours = 1, getUTCMinutes = 2, getUTCSeconds = 3, getUTCDay = 1\<rparr> []"
  using
    timeRange_unsupported_arity [of "[JNum 1, JNum 2, JNum 3]"]
    timeRange_unsupported_arity [of "[JNum 1, JNum 2, JNum 3, JStr ''GMT'']"]
    timeRange_unsupported_arity [of "[]"]
  by simp

lemma minute_floor_le:
  fixes a b s :: int
  assumes "0 \<le> s" and "s \<le> 59"
  shows "a * 60 \<le> b * 60 + s \<longleftrightarrow> a * 60 \<le> b * 60"
proof
  assume "a * 60 \<le> b * 60 + s"
  with assms have "a * 60 < (b + 1) * 60" by (simp add: algebra_simps)
  then have "a < b + 1" by simp
  then show "a * 60 \<le> b * 60" by simp
next
  assume "a * 60 \<le> b * 60"
  with assms show "a * 60 \<le> b * 60 + s" by simp
qed

lemma minute_ceil_le:
  fixes b c s :: int
  assumes "0 \<le> s" and "s \<le> 59"
  shows "b * 60 + s \<le> c * 60 + 59 \<longleftrightarrow> b * 60 \<le> c * 60 + 59"
proof
  assume "b * 60 + s \<le> c * 60 + 59"
  with assms show "b * 60 \<le> c * 60 + 59" by simp
next
  assume "b * 60 \<le> c * 60 + 59"
  then have "b * 60 < (c + 1) * 60" by (simp add: algebra_simps)
  then have "b < c + 1" by simp
  then have "b * 60 \<le> c * 60" by simp
  with assms show "b * 60 + s \<le> c * 60 + 59" by simp
qed

lemma seconds_exact:
  assumes "\<bar>h\<bar> \<le> 10 ^ 12" and "\<bar>m\<bar> \<le> 10 ^ 12" and "\<bar>s\<bar> \<le> 10 ^ 12"
  shows "secondsElapsedToday (Num h) (Num m) (Num s) = Num (h * 3600 + m * 60 + s)"
proof -
  have 1: "roundToDouble (h * 3600) = Num (h * 3600)"
    using assms(1) by (intro roundToDouble_small) simp
  have 2: "roundToDouble (m * 60) = Num (m * 60)"
    using assms(2) by (intro roundToDouble_small) simp
  have 3: "roundToDouble (h * 3600 + m * 60) = Num (h * 3600 + m * 60)"
    using assms(1,2) by (intro roundToDouble_small) simp
  have 4: "roundToDouble (h * 3600 + m * 60 + s) = Num (h * 3600 + m * 60 + s)"
    using assms by (intro roundToDouble_small) simp
  show ?thesis
    by (simp add: secondsElapsedToday_def 1 2 3 4)
qed

lemma clock_fields_small:
  assumes "valid_date d"
  shows "\<bar>if g then getUTCHours d else getHours d\<bar> \<le> 10 ^ 12"
    and "\<bar>if g then getUTCMinutes d else getMinutes d\<bar> \<le> 10 ^ 12"
    and "\<bar>if g then getUTCSeconds d else getSeconds d\<bar> \<le> 10 ^ 12"
  using assms by (simp_all add: valid_date_def)

lemma dispatch_4_Num:
  assumes "parseInt a1 = Num h1" and "parseInt a2 = Num m1"
    and "parseInt a3 = Num h2" and "parseInt a4 = Num m2"
    and "\<forall>n \<in> {h1, m1, h2, m2}. \<bar>n\<bar> \<le> 10 ^ 12" and "valid_date d"
  shows "timeRange_dispatch g d [a1, a2, a3, a4] \<longleftrightarrow>
      h1 * 3600 + m1 * 60 + 0 \<le>
        (if g then getUTCHours d else getHours d) * 3600 +
        (if g then getUTCMinutes d else getMinutes d) * 60 \<and>
      (if g then getUTCHours d else getHours d) * 3600 +
        (if g then getUTCMinutes d else getMinutes d) * 60 \<le> h2 * 3600 + m2 * 60 + 59"
proof -
  have b: "\<bar>h1\<bar> \<le> 10 ^ 12" "\<bar>m1\<bar> \<le> 10 ^ 12" "\<bar>h2\<bar> \<le> 10 ^ 12" "\<bar>m2\<bar> \<le> 10 ^ 12"
    using assms(5) by simp_all
  have z: "\<bar>0::int\<bar> \<le> 10 ^ 12" "\<bar>59::int\<bar> \<le> 10 ^ 12"
    by simp_all
  note c = clock_fields_small [OF assms(6), of g]
  show ?thesis
    unfolding dispatch_4 assms(1-4) getCurrentHour_def getCurrentMinute_def
      seconds_exact [OF b(1) b(2) z(1)] seconds_exact [OF b(3) b(4) z(2)]
      seconds_exact [OF c(1) c(2) z(1)] valueInRange_def
    by simp
qed

lemma dispatch_6_Num:
  assumes "parseInt a1 = Num h1" and "parseInt a2 = Num m1" and "parseInt a3 = Num s1"
    and "parseInt a4 = Num h2" and "parseInt a5 = Num m2" and "parseInt a6 = Num s2"
    and "\<forall>n \<in> {h1, m1, s1, h2, m2, s2}. \<bar>n\<bar> \<le> 10 ^ 12" and "valid_date d"
  shows "timeRange_dispatch g d [a1, a2, a3, a4, a5, a6] \<longleftrightarrow>
      h1 * 3600 + m1 * 60 + s1 \<le>
        (if g then getUTCHours d else getHours d) * 3600 +
        (if g then getUTCMinutes d else getMinutes d) * 60 +
        (if g then getUTCSeconds d else getSeconds d) \<and>
      (if g then getUTCHours d else getHours d) * 3600 +
        (if g then getUTCMinutes d else getMinutes d) * 60 +
        (if g then getUTCSeconds d else getSeconds d) \<le> h2 * 3600 + m2 * 60 + s2"
proof -
  have b: "\<bar>h1\<bar> \<le> 10 ^ 12" "\<bar>m1\<bar> \<le> 10 ^ 12" "\<bar>s1\<bar> \<le> 10 ^ 12"
    "\<bar>h2\<bar> \<le> 10 ^ 12" "\<bar>m2\<bar> \<le> 10 ^ 12" "\<bar>s2\<bar> \<le> 10 ^ 12"
    using assms(7) by simp_all
  note c = clock_fields_small [OF assms(8), of g]
  show ?thesis
    unfolding dispatch_6 assms(1-6) getCurrentHour_def getCurrentMinute_def
      getCurrentSecond_def
      seconds_exact [OF b(1) b(2) b(3)] seconds_exact [OF b(4) b(5) b(6)]
      seconds_exact [OF c(1) c(2) c(3)] valueInRange_def
    by simp
qed

lemma seconds_window_4:
  fixes h1 m1 h2 m2 H M S :: int
  assumes "0 \<le> S" and "S \<le> 59"
  shows "(h1 * 3600 + m1 * 60 + 0 \<le> H * 3600 + M * 60 \<and> H * 3600 + M * 60 \<le> h2 * 3600 + m2 * 60 + 59)
     \<longleftrightarrow> (h1 * 3600 + m1 * 60 + 0 \<le> H * 3600 + M * 60 + S \<and>
          H * 3600 + M * 60 + S \<le> h2 * 3600 + m2 * 60 + 59)"
proof -
  define a b c where "a = h1 * 60 + m1" and "b = H * 60 + M" and "c = h2 * 60 + m2"
  have e: "h1 * 3600 + m1 * 60 + 0 = a * 60" "H * 3600 + M * 60 = b * 60"
    "h2 * 3600 + m2 * 60 = c * 60"
    by (simp_all add: a_def b_def c_def)
  show ?thesis
    unfolding e
    using minute_floor_le [OF assms, of a b] minute_ceil_le [OF assms, of b c]
    by blast
qed

text \<open>
  Claim C5. The four-argument form \<open>timeRange(hour1, min1, hour2, min2)\<close> takes second
  \<open>0\<close> for the start and second \<open>59\<close> for the end and tests inclusively: on every clock
  reading the result is true iff the seconds elapsed today,
  \<open>hours * 3600 + minutes * 60 + seconds\<close> of the clock (local, or UTC when \<open>"GMT"\<close>
  follows), lie between \<open>hour1 * 3600 + min1 * 60 + 0\<close> and
  \<open>hour2 * 3600 + min2 * 60 + 59\<close>. This is for arguments of magnitude up to \<open>10^12\<close>,
  where the doubles of the source compute these seconds exactly. So
  \<open>timeRange(8, 30, 17, 0)\<close> is true at 08:30:00 and at 17:00:59, false at 08:29:59 and
  at 17:01:00.
\<close>

theorem timeRange_four_arguments:
  assumes "parseInt a1 = Num h1" and "parseInt a2 = Num m1"
    and "parseInt a3 = Num h2" and "parseInt a4 = Num m2"
    and "\<forall>n \<in> {h1, m1, h2, m2}. \<bar>n\<bar> \<le> 10 ^ 12"
    and "valid_date d"
  shows
    "(timeRange d [a1, a2, a3, a4] \<longleftrightarrow>
        h1 * 3600 + m1 * 60 + 0 \<le> getHours d * 3600 + getMinutes d * 60 + getSeconds d \<and>
        getHours d * 3600 + getMinutes d * 60 + getSeconds d \<le> h2 * 3600 + m2 * 60 + 59) \<and>
     (timeRange d [a1, a2, a3, a4, JStr ''GMT''] \<longleftrightarrow>
        h1 * 3600 + m1 * 60 + 0 \<le>
          getUTCHours d * 3600 + getUTCMinutes d * 60 + getUTCSeconds d \<and>
        getUTCHours d * 3600 + getUTCMinutes d * 60 + getUTCSeconds d \<le>
          h2 * 3600 + m2 * 60 + 59) \<and>
     timeRange \<lparr>getHours = 8, getMinutes = 30, getSeconds = 0, getDay = 1,
        getUTCHours = 13, getUTCMinutes = 30, getUTCSeconds = 0, getUTCDay = 1\<rparr>
        [JNum 8, JNum 30, JNum 17, JNum 0] \<and>
     timeRange \<lparr>getHours = 17, getMinutes = 0, getSeconds = 59, getDay = 1,
        getUTCHours = 22, getUTCMinutes = 0, getUTCSeconds = 59, getUTCDay = 1\<rparr>
        [JNum 8, JNum 30, JNum 17, JNum 0] \<and>
     \<not> timeRange \<lparr>getHours = 8, getMinutes = 29, getSeconds = 59, getDay = 1,
        getUTCHours = 13, getUTCMinutes = 29, getUTCSeconds = 59, getUTCDay = 1\<rparr>
        [JNum 8, JNum 30, JNum 17, JNum 0] \<and>
     \<not> timeRange \<lparr>getHours = 17, getMinutes = 1, getSeconds = 0, getDay = 1,
        getUTCHours = 22, getUTCMinutes = 1, getUTCSeconds = 0, getUTCDay = 1\<rparr>
        [JNum 8, JNum 30, JNum 17, JNum 0]"
proof -
  have ne: "a4 \<noteq> JStr ''GMT''"
    using assms(4) by (rule parseInt_Num_not_GMT)
  have sl: "0 \<le> getSeconds d" "getSeconds d \<le> 59"
    and su: "0 \<le> getUTCSeconds d" "getUTCSeconds d \<le> 59"
    using assms(6) by (simp_all add: valid_date_def)
  have "timeRange d [a1, a2, a3, a4] = timeRange_dispatch False d [a1, a2, a3, a4]"
    using ne by (simp add: timeRange_local)
  then have local: "timeRange d [a1, a2, a3, a4] \<longleftrightarrow>
        h1 * 3600 + m1 * 60 + 0 \<le> getHours d * 3600 + getMinutes d * 60 + getSeconds d \<and>
        getHours d * 3600 + getMinutes d * 60 + getSeconds d \<le> h2 * 3600 + m2 * 60 + 59"
    using dispatch_4_Num [OF assms, of False] seconds_window_4 [OF sl]
    by simp
  have "timeRange d ([a1, a2, a3, a4] @ [JStr ''GMT'']) = timeRange_dispatch True d [a1, a2, a3, a4]"
    by (rule timeRange_GMT)
  then have utc: "timeRange d [a1, a2, a3, a4, JStr ''GMT''] \<longleftrightarrow>
        h1 * 3600 + m1 * 60 + 0 \<le>
          getUTCHours d * 3600 + getUTCMinutes d * 60 + getUTCSeconds d \<and>
        getUTCHours d * 3600 + getUTCMinutes d * 60 + getUTCSeconds d \<le>
          h2 * 3600 + m2 * 60 + 59"
    using dispatch_4_Num [OF assms, of True] seconds_window_4 [OF su]
    by simp
  have ex: "timeRange d' [JNum 8, JNum 30, JNum 17, JNum 0] \<longleftrightarrow>
      8 * 3600 + 30 * 60 + 0 \<le> getHours d' * 3600 + getMinutes d' * 60 \<and>
      getHours d' * 3600 + getMinutes d' * 60 \<le> 17 * 3600 + 0 * 60 + 59" if "valid_date d'" for d'
    using dispatch_4_Num [of "JNum 8" 8 "JNum 30" 30 "JNum 17" 17 "JNum 0" 0 d' False] that
    by (simp add: timeRange_local parseInt_JNum)
  have at_0830: "timeRange \<lparr>getHours = 8, getMinutes = 30, getSeconds = 0, getDay = 1,
        getUTCHours = 13, getUTCMinutes = 30, getUTCSeconds = 0, getUTCDay = 1\<rparr>
        [JNum 8, JNum 30, JNum 17, JNum 0]"
    by (simp add: ex valid_date_def)
  have at_170059: "timeRange \<lparr>getHours = 17, getMinutes = 0, getSeconds = 59, getDay = 1,
        getUTCHours = 22, getUTCMinutes = 0, getUTCSeconds = 59, getUTCDay = 1\<rparr>
        [JNum 8, JNum 30, JNum 17, JNum 0]"
    by (simp add: ex valid_date_def)
  have at_082959: "\<not> timeRange \<lparr>getHours = 8, getMinutes = 29, getSeconds = 59, getDay = 1,
        getUTCHours = 13, getUTCMinutes = 29, getUTCSeconds = 59, getUTCDay = 1\<rparr>
        [JNum 8, JNum 30, JNum 17, JNum 0]"
    by (simp add: ex valid_date_def)
  have at_170100: "\<not> timeRange \<lparr>getHours = 17, getMinutes = 1, getSeconds = 0, getDay = 1,
        getUTCHours = 22, getUTCMinutes = 1, getUTCSeconds = 0, getUTCDay = 1\<rparr>
        [JNum 8, JNum 30, JNum 17, JNum 0]"
    by (simp add: ex valid_date_def)
  show ?thesis
    by (intro conjI local utc at_0830 at_170059 at_082959 at_170100)
qed

theorem timeRange_four_arguments_witness:
  "valid_date \<lparr>getHours = 12, getMinutes = 15, getSeconds = 40, getDay = 3,
      getUTCHours = 17, getUTCMinutes = 15, getUTCSeconds = 40, getUTCDay = 3\<rparr> \<and>
   timeRange \<lparr>getHours = 12, getMinutes = 15, getSeconds = 40, getDay = 3,
      getUTCHours = 17, getUTCMinutes = 15, getUTCSeconds = 40, getUTCDay = 3\<rparr>
      [JNum 8, JNum 30, JNum 17, JNum 0] \<and>
   \<not> timeRange \<lparr>getHours = 12, getMinutes = 15, getSeconds = 40, getDay = 3,
      getUTCHours = 17, getUTCMinutes = 15, getUTCSeconds = 40, getUTCDay = 3\<rparr>
      [JNum 8, JNum 30, JNum 17, JNum 0, JStr ''GMT'']"
  using timeRange_four_arguments [of "JNum 8" 8 "JNum 30" 30 "JNum 17" 17 "JNum 0" 0
      "\<lparr>getHours = 12, getMinutes = 15, getSeconds = 40, getDay = 3,
        getUTCHours = 17, getUTCMinutes = 15, getUTCSeconds = 40, getUTCDay = 3\<rparr>"]
  by (simp add: parseInt_JNum valid_date_def)

text \<open>
  Claim C1, as stated, fails: \<open>timeRange(22, 0, 2, 0)\<close> and
  \<open>timeRange(22, 0, 0, 2, 0, 59)\<close> start at 22:00:00, after their end 02:00:59, and the
  clock reading 23:00:00 is past the start, yet both calls return false.
\<close>

theorem timeRange_wraparound_counterexample:
  "js_lt (secondsElapsedToday (Num 2) (Num 0) (Num 59))
      (secondsElapsedToday (Num 22) (Num 0) (Num 0)) \<and>
   js_le (secondsElapsedToday (Num 22) (Num 0) (Num 0))
      (secondsElapsedToday (Num 23) (Num 0) (Num 0)) \<and>
   \<not> timeRange \<lparr>getHours = 23, getMinutes = 0, getSeconds = 0, getDay = 2,
        getUTCHours = 4, getUTCMinutes = 0, getUTCSeconds = 0, getUTCDay = 3\<rparr>
        [JNum 22, JNum 0, JNum 2, JNum 0] \<and>
   \<not> timeRange \<lparr>getHours = 23, getMinutes = 0, getSeconds = 0, getDay = 2,
        getUTCHours = 4, getUTCMinutes = 0, getUTCSeconds = 0, getUTCDay = 3\<rparr>
        [JNum 22, JNum 0, JNum 0, JNum 2, JNum 0, JNum 59]"
  by (simp add: timeRange_local dispatch_4 dispatch_6 parseInt_JNum valueInRange_def
      seconds_exact getCurrentHour_def getCurrentMinute_def getCurrentSecond_def)

text \<open>
  Claim C1, amended. The four- and six-argument forms make no wraparound: the test is
  the plain inclusive one, start \<open><=\<close> now \<open><=\<close> end, on the seconds elapsed today. A
  window whose start instant of the day exceeds its end instant is therefore empty: the
  result is false on every clock reading, local or UTC. This is for arguments of
  magnitude up to \<open>10^12\<close>, where the doubles of the source compute the seconds exactly.
\<close>

theorem timeRange_no_wraparound:
  assumes "parseInt a1 = Num h1" and "parseInt a2 = Num m1" and "parseInt a3 = Num s1"
    and "parseInt a4 = Num h2" and "parseInt a5 = Num m2" and "parseInt a6 = Num s2"
    and "\<forall>n \<in> {h1, m1, s1, h2, m2, s2}. \<bar>n\<bar> \<le> 10 ^ 12"
    and "valid_date d"
  shows
    "(timeRange d [a1, a2, a3, a4, a5, a6] \<longleftrightarrow>
        h1 * 3600 + m1 * 60 + s1 \<le> getHours d * 3600 + getMinutes d * 60 + getSeconds d \<and>
        getHours d * 3600 + getMinutes d * 60 + getSeconds d \<le> h2 * 3600 + m2 * 60 + s2) \<and>
     (timeRange d [a1, a2, a3, a4, a5, a6, JStr ''GMT''] \<longleftrightarrow>
        h1 * 3600 + m1 * 60 + s1 \<le>
          getUTCHours d * 3600 + getUTCMinutes d * 60 + getUTCSeconds d \<and>
        getUTCHours d * 3600 + getUTCMinutes d * 60 + getUTCSeconds d \<le>
          h2 * 3600 + m2 * 60 + s2) \<and>
     (timeRange d [a1, a2, a4, a5] \<longleftrightarrow>
        h1 * 3600 + m1 * 60 + 0 \<le> getHours d * 3600 + getMinutes d * 60 + getSeconds d \<and>
        getHours d * 3600 + getMinutes d * 60 + getSeconds d \<le> h2 * 3600 + m2 * 60 + 59) \<and>
     (timeRange d [a1, a2, a4, a5, JStr ''GMT''] \<longleftrightarrow>
        h1 * 3600 + m1 * 60 + 0 \<le>
          getUTCHours d * 3600 + getUTCMinutes d * 60 + getUTCSeconds d \<and>
        getUTCHours d * 3600 + getUTCMinutes d * 60 + getUTCSeconds d \<le>
          h2 * 3600 + m2 * 60 + 59) \<and>
     (h2 * 3600 + m2 * 60 + s2 < h1 * 3600 + m1 * 60 + s1 \<longrightarrow>
        \<not> timeRange d [a1, a2, a3, a4, a5, a6] \<and>
        \<not> timeRange d [a1, a2, a3, a4, a5, a6, JStr ''GMT'']) \<and>
     (h2 * 3600 + m2 * 60 + 59 < h1 * 3600 + m1 * 60 + 0 \<longrightarrow>
        \<not> timeRange d [a1, a2, a4, a5] \<and>
        \<not> timeRange d [a1, a2, a4, a5, JStr ''GMT''])"
proof -
  have ne: "a6 \<noteq> JStr ''GMT''" "a5 \<noteq> JStr ''GMT''"
    using assms(5,6) by (auto dest: parseInt_Num_not_GMT)
  have r4: "\<forall>n \<in> {h1, m1, h2, m2}. \<bar>n\<bar> \<le> 10 ^ 12"
    using assms(7) by simp
  have sl: "0 \<le> getSeconds d" "getSeconds d \<le> 59"
    and su: "0 \<le> getUTCSeconds d" "getUTCSeconds d \<le> 59"
    using assms(8) by (simp_all add: valid_date_def)
  have six_local: "timeRange d [a1, a2, a3, a4, a5, a6] \<longleftrightarrow>
        h1 * 3600 + m1 * 60 + s1 \<le> getHours d * 3600 + getMinutes d * 60 + getSeconds d \<and>
        getHours d * 3600 + getMinutes d * 60 + getSeconds d \<le> h2 * 3600 + m2 * 60 + s2"
    using dispatch_6_Num [OF assms, of False] ne by (simp add: timeRange_local)
  have "timeRange d ([a1, a2, a3, a4, a5, a6] @ [JStr ''GMT'']) =
      timeRange_dispatch True d [a1, a2, a3, a4, a5, a6]"
    by (rule timeRange_GMT)
  then have six_utc: "timeRange d [a1, a2, a3, a4, a5, a6, JStr ''GMT''] \<longleftrightarrow>
        h1 * 3600 + m1 * 60 + s1 \<le>
          getUTCHours d * 3600 + getUTCMinutes d * 60 + getUTCSeconds d \<and>
        getUTCHours d * 3600 + getUTCMinutes d * 60 + getUTCSeconds d \<le>
          h2 * 3600 + m2 * 60 + s2"
    using dispatch_6_Num [OF assms, of True] by simp
  have six_empty: "h2 * 3600 + m2 * 60 + s2 < h1 * 3600 + m1 * 60 + s1 \<longrightarrow>
        \<not> timeRange d [a1, a2, a3, a4, a5, a6] \<and>
        \<not> timeRange d [a1, a2, a3, a4, a5, a6, JStr ''GMT'']"
    unfolding six_local six_utc by linarith
  note d4 = dispatch_4_Num [OF assms(1) assms(2) assms(4) assms(5) r4 assms(8)]
  have "timeRange d [a1, a2, a4, a5] = timeRange_dispatch False d [a1, a2, a4, a5]"
    using ne by (simp add: timeRange_local)
  then have four_local: "timeRange d [a1, a2, a4, a5] \<longleftrightarrow>
        h1 * 3600 + m1 * 60 + 0 \<le> getHours d * 3600 + getMinutes d * 60 + getSeconds d \<and>
        getHours d * 3600 + getMinutes d * 60 + getSeconds d \<le> h2 * 3600 + m2 * 60 + 59"
    using d4 [of False] seconds_window_4 [OF sl] by simp
  have "timeRange d ([a1, a2, a4, a5] @ [JStr ''GMT'']) =
      timeRange_dispatch True d [a1, a2, a4, a5]"
    by (rule timeRange_GMT)
  then have four_utc: "timeRange d [a1, a2, a4, a5, JStr ''GMT''] \<longleftrightarrow>
        h1 * 3600 + m1 * 60 + 0 \<le>
          getUTCHours d * 3600 + getUTCMinutes d * 60 + getUTCSeconds d \<and>
        getUTCHours d * 3600 + getUTCMinutes d * 60 + getUTCSeconds d \<le>
          h2 * 3600 + m2 * 60 + 59"
    using d4 [of True] seconds_window_4 [OF su] by simp
  have four_empty: "h2 * 3600 + m2 * 60 + 59 < h1 * 3600 + m1 * 60 + 0 \<longrightarrow>
        \<not> timeRange d [a1, a2, a4, a5] \<and>
        \<not> timeRange d [a1, a2, a4, a5, JStr ''GMT'']"
    unfolding four_local four_utc by linarith
  show ?thesis
    by (intro conjI six_local six_utc four_local four_utc six_empty four_empty)
qed

theorem timeRange_no_wraparound_witness:
  "valid_date \<lparr>getHours = 23, getMinutes = 0, getSeconds = 0, getDay = 2,
        getUTCHours = 4, getUTCMinutes = 0, getUTCSeconds = 0, getUTCDay = 3\<rparr> \<and>
   \<not> timeRange \<lparr>getHours = 23, getMinutes = 0, getSeconds = 0, getDay = 2,
        getUTCHours = 4, getUTCMinutes = 0, getUTCSeconds = 0, getUTCDay = 3\<rparr>
        [JNum 22, JNum 0, JNum 0, JNum 2, JNum 0, JNum 0] \<and>
   \<not> timeRange \<lparr>getHours = 23, getMinutes = 0, getSeconds = 0, getDay = 2,
        getUTCHours = 4, getUTCMinutes = 0, getUTCSeconds = 0, getUTCDay = 3\<rparr>
        [JNum 22, JNum 0, JNum 2, JNum 0] \<and>
   \<not> timeRange \<lparr>getHours = 23, getMinutes = 0, getSeconds = 0, getDay = 2,
        getUTCHours = 4, getUTCMinutes = 0, getUTCSeconds = 0, getUTCDay = 3\<rparr>
        [JNum 22, JNum 0, JNum 2, JNum 0, JStr ''GMT'']"
  using timeRange_no_wraparound [of "JNum 22" 22 "JNum 0" 0 "JNum 0" 0 "JNum 2" 2 "JNum 0" 0
      "JNum 0" 0
      "\<lparr>getHours = 23, getMinutes = 0, getSeconds = 0, getDay = 2,
        getUTCHours = 4, getUTCMinutes = 0, getUTCSeconds = 0, getUTCDay = 3\<rparr>"]
  by (simp add: parseInt_JNum valid_date_def)

lemma dispatch_utc_only:
  assumes "getUTCHours d = getUTCHours d'" and "getUTCMinutes d = getUTCMinutes d'"
    and "getUTCSeconds d = getUTCSeconds d'"
  shows "timeRange_dispatch True d args = timeRange_dispatch True d' args"
  using assms
  by (simp add: timeRange_dispatch_def getCurrentHour_def getCurrentMinute_def
      getCurrentSecond_def)

lemma dispatch_local_only:
  assumes "getHours d = getHours d'" and "getMinutes d = getMinutes d'"
    and "getSeconds d = getSeconds d'"
  shows "timeRange_dispatch False d args = timeRange_dispatch False d' args"
  using assms
  by (simp add: timeRange_dispatch_def getCurrentHour_def getCurrentMinute_def
      getCurrentSecond_def)

lemma timeRange_not_GMT:
  assumes "args = [] \<or> last args \<noteq> JStr ''GMT''"
  shows "timeRange d args =
    timeRange_dispatch False d (if args = [] then [JUndefined] else args)"
  using assms by (auto simp: timeRange_no_arguments timeRange_local)

lemma dispatch_utc_as_local:
  "timeRange_dispatch True d args =
   timeRange_dispatch False
     (d\<lparr>getHours := getUTCHours d, getMinutes := getUTCMinutes d,
        getSeconds := getUTCSeconds d\<rparr>) args"
  by (simp add: timeRange_dispatch_def getCurrentHour_def getCurrentMinute_def
      getCurrentSecond_def)

text \<open>
  Claim C6. When the last argument of \<open>timeRange\<close> is the string \<open>"GMT"\<close>, it is removed
  before the arity dispatch and hour, minute and second are all read from the UTC clock:
  the call is the call without the marker on a clock whose local fields show the UTC
  time, its result is the same on two clock readings with the same UTC fields, and the
  six-argument form compares the UTC hour, minute and second. When the last argument is
  anything else, it stays an argument to be parsed as a number and the local hour, minute
  and second are read. So \<open>timeRange(12, "GMT")\<close> is true iff the UTC hour is 12; the
  marker is case sensitive, \<open>timeRange(12, "gmt")\<close> being a two-argument call on the
  local clock.
\<close>

theorem timeRange_GMT_marker:
  "(args = [] \<or> last args \<noteq> JStr ''GMT'' \<longrightarrow>
      timeRange d (args @ [JStr ''GMT'']) =
      timeRange
        (d\<lparr>getHours := getUTCHours d, getMinutes := getUTCMinutes d,
           getSeconds := getUTCSeconds d\<rparr>) args) \<and>
   (getUTCHours d = getUTCHours d' \<and> getUTCMinutes d = getUTCMinutes d' \<and>
    getUTCSeconds d = getUTCSeconds d' \<longrightarrow>
      timeRange d (args @ [JStr ''GMT'']) = timeRange d' (args @ [JStr ''GMT''])) \<and>
   ((args = [] \<or> last args \<noteq> JStr ''GMT'') \<and>
    getHours d = getHours d' \<and> getMinutes d = getMinutes d' \<and>
    getSeconds d = getSeconds d' \<longrightarrow>
      timeRange d args = timeRange d' args) \<and>
   (parseInt a1 = Num h1 \<and> parseInt a2 = Num m1 \<and> parseInt a3 = Num s1 \<and>
    parseInt a4 = Num h2 \<and> parseInt a5 = Num m2 \<and> parseInt a6 = Num s2 \<and>
    (\<forall>n \<in> {h1, m1, s1, h2, m2, s2}. \<bar>n\<bar> \<le> 10 ^ 12) \<and> valid_date d \<longrightarrow>
      (timeRange d [a1, a2, a3, a4, a5, a6, JStr ''GMT''] \<longleftrightarrow>
         h1 * 3600 + m1 * 60 + s1 \<le>
           getUTCHours d * 3600 + getUTCMinutes d * 60 + getUTCSeconds d \<and>
         getUTCHours d * 3600 + getUTCMinutes d * 60 + getUTCSeconds d \<le>
           h2 * 3600 + m2 * 60 + s2) \<and>
      (timeRange d [a1, a2, a3, a4, a5, a6] \<longleftrightarrow>
         h1 * 3600 + m1 * 60 + s1 \<le>
           getHours d * 3600 + getMinutes d * 60 + getSeconds d \<and>
         getHours d * 3600 + getMinutes d * 60 + getSeconds d \<le>
           h2 * 3600 + m2 * 60 + s2)) \<and>
   (timeRange d [JNum 12, JStr ''GMT''] \<longleftrightarrow> getUTCHours d = 12) \<and>
   (timeRange d [JNum 12] \<longleftrightarrow> getHours d = 12) \<and>
   (timeRange d [JNum 12, JStr ''gmt''] \<longleftrightarrow>
      js_le (Num 12) (Num (getHours d)) \<and> js_lt (Num (getHours d)) (parseInt (JStr ''gmt'')))"
proof -
  have removed: "args = [] \<or> last args \<noteq> JStr ''GMT'' \<longrightarrow>
      timeRange d (args @ [JStr ''GMT'']) =
      timeRange
        (d\<lparr>getHours := getUTCHours d, getMinutes := getUTCMinutes d,
           getSeconds := getUTCSeconds d\<rparr>) args"
  proof
    assume a: "args = [] \<or> last args \<noteq> JStr ''GMT''"
    show "timeRange d (args @ [JStr ''GMT'']) =
      timeRange
        (d\<lparr>getHours := getUTCHours d, getMinutes := getUTCMinutes d,
           getSeconds := getUTCSeconds d\<rparr>) args"
    proof (cases "args = []")
      case True
      then show ?thesis
        unfolding timeRange_GMT timeRange_not_GMT [OF a]
        by (simp add: dispatch_other dispatch_1 parseInt_undefined)
    next
      case False
      then show ?thesis
        unfolding timeRange_GMT timeRange_not_GMT [OF a]
        by (simp add: dispatch_utc_as_local)
    qed
  qed
  have utc: "getUTCHours d = getUTCHours d' \<and> getUTCMinutes d = getUTCMinutes d' \<and>
    getUTCSeconds d = getUTCSeconds d' \<longrightarrow>
      timeRange d (args @ [JStr ''GMT'']) = timeRange d' (args @ [JStr ''GMT''])"
    unfolding timeRange_GMT using dispatch_utc_only [of d d' args] by blast
  have loc: "(args = [] \<or> last args \<noteq> JStr ''GMT'') \<and>
    getHours d = getHours d' \<and> getMinutes d = getMinutes d' \<and>
    getSeconds d = getSeconds d' \<longrightarrow>
      timeRange d args = timeRange d' args"
  proof (intro impI, elim conjE)
    assume a: "args = [] \<or> last args \<noteq> JStr ''GMT''"
      and f: "getHours d = getHours d'" "getMinutes d = getMinutes d'"
        "getSeconds d = getSeconds d'"
    show "timeRange d args = timeRange d' args"
      unfolding timeRange_not_GMT [OF a] by (rule dispatch_local_only [OF f])
  qed
  have six: "parseInt a1 = Num h1 \<and> parseInt a2 = Num m1 \<and> parseInt a3 = Num s1 \<and>
    parseInt a4 = Num h2 \<and> parseInt a5 = Num m2 \<and> parseInt a6 = Num s2 \<and>
    (\<forall>n \<in> {h1, m1, s1, h2, m2, s2}. \<bar>n\<bar> \<le> 10 ^ 12) \<and> valid_date d \<longrightarrow>
      (timeRange d [a1, a2, a3, a4, a5, a6, JStr ''GMT''] \<longleftrightarrow>
         h1 * 3600 + m1 * 60 + s1 \<le>
           getUTCHours d * 3600 + getUTCMinutes d * 60 + getUTCSeconds d \<and>
         getUTCHours d * 3600 + getUTCMinutes d * 60 + getUTCSeconds d \<le>
           h2 * 3600 + m2 * 60 + s2) \<and>
      (timeRange d [a1, a2, a3, a4, a5, a6] \<longleftrightarrow>
         h1 * 3600 + m1 * 60 + s1 \<le>
           getHours d * 3600 + getMinutes d * 60 + getSeconds d \<and>
         getHours d * 3600 + getMinutes d * 60 + getSeconds d \<le>
           h2 * 3600 + m2 * 60 + s2)"
  proof (intro impI, elim conjE)
    assume p: "parseInt a1 = Num h1" "parseInt a2 = Num m1" "parseInt a3 = Num s1"
      "parseInt a4 = Num h2" "parseInt a5 = Num m2" "parseInt a6 = Num s2"
      and r: "\<forall>n \<in> {h1, m1, s1, h2, m2, s2}. \<bar>n\<bar> \<le> 10 ^ 12" and v: "valid_date d"
    have ne: "a6 \<noteq> JStr ''GMT''"
      using p(6) by (rule parseInt_Num_not_GMT)
    have "timeRange d ([a1, a2, a3, a4, a5, a6] @ [JStr ''GMT'']) =
        timeRange_dispatch True d [a1, a2, a3, a4, a5, a6]"
      by (rule timeRange_GMT)
    then have g: "timeRange d [a1, a2, a3, a4, a5, a6, JStr ''GMT''] \<longleftrightarrow>
         h1 * 3600 + m1 * 60 + s1 \<le>
           getUTCHours d * 3600 + getUTCMinutes d * 60 + getUTCSeconds d \<and>
         getUTCHours d * 3600 + getUTCMinutes d * 60 + getUTCSeconds d \<le>
           h2 * 3600 + m2 * 60 + s2"
      using dispatch_6_Num [OF p r v, of True] by simp
    have l: "timeRange d [a1, a2, a3, a4, a5, a6] \<longleftrightarrow>
         h1 * 3600 + m1 * 60 + s1 \<le>
           getHours d * 3600 + getMinutes d * 60 + getSeconds d \<and>
         getHours d * 3600 + getMinutes d * 60 + getSeconds d \<le>
           h2 * 3600 + m2 * 60 + s2"
      using dispatch_6_Num [OF p r v, of False] ne by (simp add: timeRange_local)
    show "(timeRange d [a1, a2, a3, a4, a5, a6, JStr ''GMT''] \<longleftrightarrow>
         h1 * 3600 + m1 * 60 + s1 \<le>
           getUTCHours d * 3600 + getUTCMinutes d * 60 + getUTCSeconds d \<and>
         getUTCHours d * 3600 + getUTCMinutes d * 60 + getUTCSeconds d \<le>
           h2 * 3600 + m2 * 60 + s2) \<and>
      (timeRange d [a1, a2, a3, a4, a5, a6] \<longleftrightarrow>
         h1 * 3600 + m1 * 60 + s1 \<le>
           getHours d * 3600 + getMinutes d * 60 + getSeconds d \<and>
         getHours d * 3600 + getMinutes d * 60 + getSeconds d \<le>
           h2 * 3600 + m2 * 60 + s2)"
      by (intro conjI g l)
  qed
  have "timeRange d ([JNum 12] @ [JStr ''GMT'']) \<longleftrightarrow> getUTCHours d = 12"
    by (simp only: timeRange_GMT) (simp add: dispatch_1 parseInt_JNum getCurrentHour_def)
  then have noon_utc: "timeRange d [JNum 12, JStr ''GMT''] \<longleftrightarrow> getUTCHours d = 12"
    by simp
  have noon: "timeRange d [JNum 12] \<longleftrightarrow> getHours d = 12"
    by (simp add: timeRange_local dispatch_1 parseInt_JNum getCurrentHour_def)
  have lower: "timeRange d [JNum 12, JStr ''gmt''] \<longleftrightarrow>
      js_le (Num 12) (Num (getHours d)) \<and> js_lt (Num (getHours d)) (parseInt (JStr ''gmt''))"
    by (simp add: timeRange_local dispatch_2 parseInt_JNum getCurrentHour_def)
  show ?thesis
    by (intro conjI removed utc loc six noon_utc noon lower)
qed

theorem timeRange_GMT_marker_witness:
  "valid_date \<lparr>getHours = 7, getMinutes = 20, getSeconds = 5, getDay = 2,
        getUTCHours = 12, getUTCMinutes = 40, getUTCSeconds = 30, getUTCDay = 2\<rparr> \<and>
   timeRange \<lparr>getHours = 7, getMinutes = 20, getSeconds = 5, getDay = 2,
        getUTCHours = 12, getUTCMinutes = 40, getUTCSeconds = 30, getUTCDay = 2\<rparr>
        [JNum 12, JNum 40, JNum 30, JNum 12, JNum 40, JNum 30, JStr ''GMT''] \<and>
   \<not> timeRange \<lparr>getHours = 7, getMinutes = 20, getSeconds = 5, getDay = 2,
        getUTCHours = 12, getUTCMinutes = 40, getUTCSeconds = 30, getUTCDay = 2\<rparr>
        [JNum 12, JNum 40, JNum 30, JNum 12, JNum 40, JNum 30] \<and>
   timeRange \<lparr>getHours = 7, getMinutes = 20, getSeconds = 5, getDay = 2,
        getUTCHours = 12, getUTCMinutes = 40, getUTCSeconds = 30, getUTCDay = 2\<rparr>
        [JNum 12, JStr ''GMT''] \<and>
   \<not> timeRange \<lparr>getHours = 7, getMinutes = 20, getSeconds = 5, getDay = 2,
        getUTCHours = 12, getUTCMinutes = 40, getUTCSeconds = 30, getUTCDay = 2\<rparr>
        [JNum 12] \<and>
   timeRange \<lparr>getHours = 7, getMinutes = 20, getSeconds = 5, getDay = 2,
        getUTCHours = 12, getUTCMinutes = 40, getUTCSeconds = 30, getUTCDay = 2\<rparr>
        [JNum 7, JNum 20, JStr ''GMT''] =
   timeRange \<lparr>getHours = 12, getMinutes = 40, getSeconds = 30, getDay = 2,
        getUTCHours = 12, getUTCMinutes = 40, getUTCSeconds = 30, getUTCDay = 2\<rparr>
        [JNum 7, JNum 20]"
  using timeRange_GMT_marker [of "[JNum 7, JNum 20]"
      "\<lparr>getHours = 7, getMinutes = 20, getSeconds = 5, getDay = 2,
        getUTCHours = 12, getUTCMinutes = 40, getUTCSeconds = 30, getUTCDay = 2\<rparr>"
      "\<lparr>getHours = 7, getMinutes = 20, getSeconds = 5, getDay = 2,
        getUTCHours = 12, getUTCMinutes = 40, getUTCSeconds = 30, getUTCDay = 2\<rparr>"
      "JNum 12" 12 "JNum 40" 40 "JNum 30" 30 "JNum 12" 12 "JNum 40" 40 "JNum 30" 30]
  by (simp add: parseInt_JNum valid_date_def)







section \<open>The weekday table\<close>

lemma indexOf_from_bounds:
  "indexOf_from k xs v = - 1 \<or> (k \<le> indexOf_from k xs v \<and> indexOf_from k xs v < k + int (length xs))"
proof (induction xs arbitrary: k)
  case Nil
  show ?case by simp
next
  case (Cons x xs)
  show ?case
    using Cons.IH [of "k + 1"] by auto
qed

lemma indexOf_from_minus1:
  "0 \<le> k \<Longrightarrow> indexOf_from k xs v = - 1 \<longleftrightarrow> v \<notin> set xs"
proof (induction xs arbitrary: k)
  case Nil
  then show ?case by simp
next
  case (Cons x xs)
  then show ?case by auto
qed

lemma isWeekday_iff: "isWeekday v \<longleftrightarrow> v \<in> set weekdays"
  by (simp add: isWeekday_def indexOf_def indexOf_from_minus1)

lemma indexOf_weekdays_bounds:
  "isWeekday v \<Longrightarrow> 0 \<le> indexOf weekdays v \<and> indexOf weekdays v \<le> 6"
  using indexOf_from_bounds [of 0 weekdays v]
  by (auto simp: isWeekday_def indexOf_def weekdays_def)

lemma indexOf_not_weekday: "\<not> isWeekday v \<Longrightarrow> indexOf weekdays v = - 1"
  by (simp add: isWeekday_def)

lemma isWeekday_not_GMT: "isWeekday v \<Longrightarrow> \<not> isGMT v"
  by (auto simp: isWeekday_iff isGMT_def weekdays_def)

lemma indexOf_tokens:
  "indexOf weekdays (JStr ''SUN'') = 0" "indexOf weekdays (JStr ''MON'') = 1"
  "indexOf weekdays (JStr ''TUE'') = 2" "indexOf weekdays (JStr ''WED'') = 3"
  "indexOf weekdays (JStr ''THU'') = 4" "indexOf weekdays (JStr ''FRI'') = 5"
  "indexOf weekdays (JStr ''SAT'') = 6"
  by (simp_all add: indexOf_def weekdays_def)

lemma weekdayRange_single:
  assumes "\<not> isWeekday wd2"
  shows "weekdayRange d wd1 wd2 gmt \<longleftrightarrow>
    getTodaysDay (isGMT gmt \<or> isGMT wd2) d = indexOf weekdays wd1"
  using assms by (simp add: weekdayRange_def Let_def)

lemma weekdayRange_two:
  assumes "isWeekday wd2"
  shows "weekdayRange d wd1 wd2 gmt \<longleftrightarrow>
    (if indexOf weekdays wd1 \<le> indexOf weekdays wd2
     then indexOf weekdays wd1 \<le> getTodaysDay (isGMT gmt) d \<and>
          getTodaysDay (isGMT gmt) d \<le> indexOf weekdays wd2
     else (indexOf weekdays wd1 \<le> getTodaysDay (isGMT gmt) d \<and> getTodaysDay (isGMT gmt) d \<le> 6) \<or>
          (0 \<le> getTodaysDay (isGMT gmt) d \<and> getTodaysDay (isGMT gmt) d \<le> indexOf weekdays wd2))"
  using assms isWeekday_not_GMT [OF assms] indexOf_weekdays_bounds [OF assms]
  by (auto simp: weekdayRange_def valueInRange_weekday_def Let_def)

section \<open>Claims on weekdayRange\<close>

text \<open>
  Claim C3. In the two-weekday form, with weekday tokens \<open>wd1\<close> and \<open>wd2\<close> such that the
  index of \<open>wd1\<close> is above the index of \<open>wd2\<close>, the result is true iff
  \<open>index(wd1) <= today <= 6\<close> or \<open>0 <= today <= index(wd2)\<close>, today being the local
  weekday, or the UTC one when \<open>"GMT"\<close> is the third argument. So
  \<open>weekdayRange("FRI", "MON")\<close> is true exactly on the weekdays 5, 6, 0 and 1 and false
  on 2, 3 and 4, where \<open>weekdayRange("MON", "FRI")\<close> is true: the order matters.
\<close>

theorem weekdayRange_wraparound:
  "(isWeekday wd1 \<and> isWeekday wd2 \<and> indexOf weekdays wd2 < indexOf weekdays wd1 \<longrightarrow>
      (weekdayRange d wd1 wd2 gmt \<longleftrightarrow>
         (indexOf weekdays wd1 \<le> getTodaysDay (isGMT gmt) d \<and> getTodaysDay (isGMT gmt) d \<le> 6) \<or>
         (0 \<le> getTodaysDay (isGMT gmt) d \<and>
          getTodaysDay (isGMT gmt) d \<le> indexOf weekdays wd2))) \<and>
   (0 \<le> getDay d \<and> getDay d \<le> 6 \<longrightarrow>
      (weekdayRange d (JStr ''FRI'') (JStr ''MON'') JUndefined \<longleftrightarrow>
         getDay d = 5 \<or> getDay d = 6 \<or> getDay d = 0 \<or> getDay d = 1) \<and>
      (\<not> weekdayRange d (JStr ''FRI'') (JStr ''MON'') JUndefined \<longleftrightarrow>
         getDay d = 2 \<or> getDay d = 3 \<or> getDay d = 4)) \<and>
   (getDay d = 2 \<or> getDay d = 3 \<or> getDay d = 4 \<longrightarrow>
      weekdayRange d (JStr ''MON'') (JStr ''FRI'') JUndefined \<and>
      \<not> weekdayRange d (JStr ''FRI'') (JStr ''MON'') JUndefined)"
proof -
  have wk: "isWeekday (JStr ''FRI'')" "isWeekday (JStr ''MON'')"
    by (simp_all add: isWeekday_def indexOf_tokens)
  have ng: "\<not> isGMT JUndefined"
    by (simp add: isGMT_def)
  have general: "isWeekday wd1 \<and> isWeekday wd2 \<and> indexOf weekdays wd2 < indexOf weekdays wd1 \<longrightarrow>
      (weekdayRange d wd1 wd2 gmt \<longleftrightarrow>
         (indexOf weekdays wd1 \<le> getTodaysDay (isGMT gmt) d \<and> getTodaysDay (isGMT gmt) d \<le> 6) \<or>
         (0 \<le> getTodaysDay (isGMT gmt) d \<and>
          getTodaysDay (isGMT gmt) d \<le> indexOf weekdays wd2))"
    by (simp add: weekdayRange_two)
  have fri_mon: "weekdayRange d (JStr ''FRI'') (JStr ''MON'') JUndefined \<longleftrightarrow>
      (5 \<le> getDay d \<and> getDay d \<le> 6) \<or> (0 \<le> getDay d \<and> getDay d \<le> 1)"
    using wk ng by (simp add: weekdayRange_two indexOf_tokens getTodaysDay_def)
  have mon_fri: "weekdayRange d (JStr ''MON'') (JStr ''FRI'') JUndefined \<longleftrightarrow>
      1 \<le> getDay d \<and> getDay d \<le> 5"
    using wk ng by (simp add: weekdayRange_two indexOf_tokens getTodaysDay_def)
  have days: "0 \<le> getDay d \<and> getDay d \<le> 6 \<longrightarrow>
      (weekdayRange d (JStr ''FRI'') (JStr ''MON'') JUndefined \<longleftrightarrow>
         getDay d = 5 \<or> getDay d = 6 \<or> getDay d = 0 \<or> getDay d = 1) \<and>
      (\<not> weekdayRange d (JStr ''FRI'') (JStr ''MON'') JUndefined \<longleftrightarrow>
         getDay d = 2 \<or> getDay d = 3 \<or> getDay d = 4)"
    unfolding fri_mon by arith
  have order: "getDay d = 2 \<or> getDay d = 3 \<or> getDay d = 4 \<longrightarrow>
      weekdayRange d (JStr ''MON'') (JStr ''FRI'') JUndefined \<and>
      \<not> weekdayRange d (JStr ''FRI'') (JStr ''MON'') JUndefined"
    unfolding fri_mon mon_fri by arith
  show ?thesis
    by (intro conjI general days order)
qed

theorem weekdayRange_wraparound_witness:
  "isWeekday (JStr ''SAT'') \<and> isWeekday (JStr ''TUE'') \<and>
   indexOf weekdays (JStr ''TUE'') < indexOf weekdays (JStr ''SAT'') \<and>
   weekdayRange \<lparr>getHours = 10, getMinutes = 0, getSeconds = 0, getDay = 0,
        getUTCHours = 2, getUTCMinutes = 0, getUTCSeconds = 0, getUTCDay = 3\<rparr>
        (JStr ''SAT'') (JStr ''TUE'') JUndefined \<and>
   \<not> weekdayRange \<lparr>getHours = 10, getMinutes = 0, getSeconds = 0, getDay = 0,
        getUTCHours = 2, getUTCMinutes = 0, getUTCSeconds = 0, getUTCDay = 3\<rparr>
        (JStr ''SAT'') (JStr ''TUE'') (JStr ''GMT'') \<and>
   weekdayRange \<lparr>getHours = 10, getMinutes = 0, getSeconds = 0, getDay = 0,
        getUTCHours = 2, getUTCMinutes = 0, getUTCSeconds = 0, getUTCDay = 3\<rparr>
        (JStr ''FRI'') (JStr ''MON'') JUndefined \<and>
   weekdayRange \<lparr>getHours = 10, getMinutes = 0, getSeconds = 0, getDay = 3,
        getUTCHours = 2, getUTCMinutes = 0, getUTCSeconds = 0, getUTCDay = 3\<rparr>
        (JStr ''MON'') (JStr ''FRI'') JUndefined \<and>
   \<not> weekdayRange \<lparr>getHours = 10, getMinutes = 0, getSeconds = 0, getDay = 3,
        getUTCHours = 2, getUTCMinutes = 0, getUTCSeconds = 0, getUTCDay = 3\<rparr>
        (JStr ''FRI'') (JStr ''MON'') JUndefined"
  using
    weekdayRange_wraparound [of _ _
      "\<lparr>getHours = 10, getMinutes = 0, getSeconds = 0, getDay = 3,
        getUTCHours = 2, getUTCMinutes = 0, getUTCSeconds = 0, getUTCDay = 3\<rparr>"]
    weekdayRange_wraparound [of "JStr ''SAT''" "JStr ''TUE''"
      "\<lparr>getHours = 10, getMinutes = 0, getSeconds = 0, getDay = 0,
        getUTCHours = 2, getUTCMinutes = 0, getUTCSeconds = 0, getUTCDay = 3\<rparr>" JUndefined]
    weekdayRange_wraparound [of "JStr ''SAT''" "JStr ''TUE''"
      "\<lparr>getHours = 10, getMinutes = 0, getSeconds = 0, getDay = 0,
        getUTCHours = 2, getUTCMinutes = 0, getUTCSeconds = 0, getUTCDay = 3\<rparr>" "JStr ''GMT''"]
  by (simp add: isWeekday_def indexOf_tokens isGMT_def getTodaysDay_def)

text \<open>
  Claim C2, as stated, fails: \<open>"XYZ"\<close> is no weekday token, yet
  \<open>weekdayRange("XYZ", "SAT")\<close> is true on a Wednesday (and on every other day): the
  index \<open>-1\<close> of \<open>"XYZ"\<close> is the lower bound of the range test \<open>-1 <= today <= 6\<close>.
\<close>

theorem weekdayRange_unrecognized_wd1_counterexample:
  "\<not> isWeekday (JStr ''XYZ'') \<and>
   weekdayRange \<lparr>getHours = 10, getMinutes = 0, getSeconds = 0, getDay = 3,
        getUTCHours = 15, getUTCMinutes = 0, getUTCSeconds = 0, getUTCDay = 3\<rparr>
        (JStr ''XYZ'') (JStr ''SAT'') JUndefined"
  by (simp add: weekdayRange_def isWeekday_def isGMT_def indexOf_def weekdays_def
      getTodaysDay_def valueInRange_weekday_def)

text \<open>
  Claim C2, amended. When the first argument of \<open>weekdayRange\<close> is not one of the seven
  weekday tokens, its index is \<open>-1\<close>. If the second argument is no weekday token either
  (omitted, \<open>"GMT"\<close> or anything else), the result is false on every clock reading with a
  weekday in \<open>0..6\<close>, whatever the third argument: the equality test against today never
  matches. If the second argument is a weekday token, the index \<open>-1\<close> is a lower bound
  below every day and the result is \<open>today <= index(wd2)\<close>.
\<close>

theorem weekdayRange_unrecognized_wd1:
  assumes "\<not> isWeekday wd1" and "valid_date d"
  shows "indexOf weekdays wd1 = - 1 \<and>
     (\<not> isWeekday wd2 \<longrightarrow> \<not> weekdayRange d wd1 wd2 gmt) \<and>
     (isWeekday wd2 \<longrightarrow>
        (weekdayRange d wd1 wd2 gmt \<longleftrightarrow> getTodaysDay (isGMT gmt) d \<le> indexOf weekdays wd2))"
proof -
  have i1: "indexOf weekdays wd1 = - 1"
    using assms(1) by (rule indexOf_not_weekday)
  have today: "0 \<le> getTodaysDay g d" for g
    using assms(2) by (simp add: valid_date_def getTodaysDay_def)
  have single: "\<not> isWeekday wd2 \<longrightarrow> \<not> weekdayRange d wd1 wd2 gmt"
    using today [of "isGMT gmt \<or> isGMT wd2"] by (simp add: weekdayRange_single i1)
  have two: "isWeekday wd2 \<longrightarrow>
        (weekdayRange d wd1 wd2 gmt \<longleftrightarrow> getTodaysDay (isGMT gmt) d \<le> indexOf weekdays wd2)"
    using today [of "isGMT gmt"] indexOf_weekdays_bounds [of wd2]
    by (auto simp: weekdayRange_two i1)
  show ?thesis
    by (intro conjI i1 single two)
qed

theorem weekdayRange_unrecognized_wd1_witness:
  "\<not> isWeekday (JStr ''XYZ'') \<and>
   valid_date \<lparr>getHours = 10, getMinutes = 0, getSeconds = 0, getDay = 3,
        getUTCHours = 15, getUTCMinutes = 0, getUTCSeconds = 0, getUTCDay = 3\<rparr> \<and>
   \<not> weekdayRange \<lparr>getHours = 10, getMinutes = 0, getSeconds = 0, getDay = 3,
        getUTCHours = 15, getUTCMinutes = 0, getUTCSeconds = 0, getUTCDay = 3\<rparr>
        (JStr ''XYZ'') JUndefined JUndefined \<and>
   \<not> weekdayRange \<lparr>getHours = 10, getMinutes = 0, getSeconds = 0, getDay = 3,
        getUTCHours = 15, getUTCMinutes = 0, getUTCSeconds = 0, getUTCDay = 3\<rparr>
        (JStr ''XYZ'') (JStr ''GMT'') JUndefined \<and>
   \<not> weekdayRange \<lparr>getHours = 10, getMinutes = 0, getSeconds = 0, getDay = 3,
        getUTCHours = 15, getUTCMinutes = 0, getUTCSeconds = 0, getUTCDay = 3\<rparr>
        (JStr ''XYZ'') (JStr ''TUE'') JUndefined"
proof -
  have x: "\<not> isWeekday (JStr ''XYZ'')" "\<not> isWeekday JUndefined" "\<not> isWeekday (JStr ''GMT'')"
    and t: "isWeekday (JStr ''TUE'')"
    by (simp_all add: isWeekday_def indexOf_def weekdays_def)
  have v: "valid_date \<lparr>getHours = 10, getMinutes = 0, getSeconds = 0, getDay = 3,
        getUTCHours = 15, getUTCMinutes = 0, getUTCSeconds = 0, getUTCDay = 3\<rparr>"
    by (simp add: valid_date_def)
  show ?thesis
    using x t v
      weekdayRange_unrecognized_wd1 [OF x(1) v, of JUndefined JUndefined]
      weekdayRange_unrecognized_wd1 [OF x(1) v, of "JStr ''GMT''" JUndefined]
      weekdayRange_unrecognized_wd1 [OF x(1) v, of "JStr ''TUE''" JUndefined]
    by (simp add: indexOf_tokens getTodaysDay_def isGMT_def)
qed

text \<open>
  Claim C10, as stated, fails when the third argument is \<open>"GMT"\<close>: on a clock reading
  whose local weekday is Monday and whose UTC weekday is Tuesday,
  \<open>weekdayRange("MON", "XYZ", "GMT")\<close> is false although the local weekday is the index
  of \<open>"MON"\<close>.
\<close>

theorem weekdayRange_invalid_wd2_counterexample:
  "JStr ''XYZ'' \<noteq> JUndefined \<and> \<not> isWeekday (JStr ''XYZ'') \<and> \<not> isGMT (JStr ''XYZ'') \<and>
   getDay \<lparr>getHours = 22, getMinutes = 0, getSeconds = 0, getDay = 1,
        getUTCHours = 3, getUTCMinutes = 0, getUTCSeconds = 0, getUTCDay = 2\<rparr> =
     indexOf weekdays (JStr ''MON'') \<and>
   \<not> weekdayRange \<lparr>getHours = 22, getMinutes = 0, getSeconds = 0, getDay = 1,
        getUTCHours = 3, getUTCMinutes = 0, getUTCSeconds = 0, getUTCDay = 2\<rparr>
        (JStr ''MON'') (JStr ''XYZ'') (JStr ''GMT'')"
  by (simp add: weekdayRange_def isWeekday_def isGMT_def indexOf_def weekdays_def
      getTodaysDay_def)

text \<open>
  Claim C10, amended. When the second argument of \<open>weekdayRange\<close> is present but is
  neither a weekday token nor \<open>"GMT"\<close>, it is ignored and the call is the single-weekday
  form, the same as the call without it: the result is true iff today's weekday is the
  index of \<open>wd1\<close>, today being the local weekday when the third argument is not
  \<open>"GMT"\<close> and the UTC weekday when it is.
\<close>

theorem weekdayRange_invalid_wd2:
  assumes "wd2 \<noteq> JUndefined" and "\<not> isWeekday wd2" and "\<not> isGMT wd2"
  shows "weekdayRange d wd1 wd2 gmt = weekdayRange d wd1 JUndefined gmt \<and>
     (\<not> isGMT gmt \<longrightarrow> (weekdayRange d wd1 wd2 gmt \<longleftrightarrow> getDay d = indexOf weekdays wd1)) \<and>
     (isGMT gmt \<longrightarrow> (weekdayRange d wd1 wd2 gmt \<longleftrightarrow> getUTCDay d = indexOf weekdays wd1))"
proof -
  have u: "\<not> isWeekday JUndefined" "\<not> isGMT JUndefined"
    by (simp_all add: isWeekday_def indexOf_def weekdays_def isGMT_def)
  have r: "weekdayRange d wd1 wd2 gmt \<longleftrightarrow> getTodaysDay (isGMT gmt) d = indexOf weekdays wd1"
    using assms by (simp add: weekdayRange_single)
  have r0: "weekdayRange d wd1 JUndefined gmt \<longleftrightarrow>
      getTodaysDay (isGMT gmt) d = indexOf weekdays wd1"
    using u by (simp add: weekdayRange_single)
  show ?thesis
    unfolding r r0 by (simp add: getTodaysDay_def)
qed

theorem weekdayRange_invalid_wd2_witness:
  "JStr ''XYZ'' \<noteq> JUndefined \<and> \<not> isWeekday (JStr ''XYZ'') \<and> \<not> isGMT (JStr ''XYZ'') \<and>
   weekdayRange \<lparr>getHours = 22, getMinutes = 0, getSeconds = 0, getDay = 1,
        getUTCHours = 3, getUTCMinutes = 0, getUTCSeconds = 0, getUTCDay = 2\<rparr>
        (JStr ''MON'') (JStr ''XYZ'') JUndefined \<and>
   weekdayRange \<lparr>getHours = 22, getMinutes = 0, getSeconds = 0, getDay = 1,
        getUTCHours = 3, getUTCMinutes = 0, getUTCSeconds = 0, getUTCDay = 2\<rparr>
        (JStr ''TUE'') (JStr ''XYZ'') (JStr ''GMT'')"
proof -
  have x: "JStr ''XYZ'' \<noteq> JUndefined" "\<not> isWeekday (JStr ''XYZ'')" "\<not> isGMT (JStr ''XYZ'')"
    by (simp_all add: isWeekday_def indexOf_def weekdays_def isGMT_def)
  note local = weekdayRange_invalid_wd2 [OF x, of
      "\<lparr>getHours = 22, getMinutes = 0, getSeconds = 0, getDay = 1,
        getUTCHours = 3, getUTCMinutes = 0, getUTCSeconds = 0, getUTCDay = 2\<rparr>"
      "JStr ''MON''" JUndefined, THEN conjunct2]
  note utc = weekdayRange_invalid_wd2 [OF x, of
      "\<lparr>getHours = 22, getMinutes = 0, getSeconds = 0, getDay = 1,
        getUTCHours = 3, getUTCMinutes = 0, getUTCSeconds = 0, getUTCDay = 2\<rparr>"
      "JStr ''TUE''" "JStr ''GMT''", THEN conjunct2]
  show ?thesis
    using x local utc by (simp add: indexOf_tokens isGMT_def)
qed

section \<open>The heap and the clock\<close>

lemma timeRange_st_eq:
  "timeRange_st clock actuals w =
     (timeRange (clock (reads w)) actuals,
      w\<lparr>heap := heap w @
           [actuals,
            if fst (pop actuals) \<noteq> JStr ''GMT'' then snd (pop actuals) @ [fst (pop actuals)]
            else snd (pop actuals)],
        reads := Suc (reads w)\<rparr>)"
  by (auto simp: timeRange_st_def new_Array_def slice_call_def pop_at_def push_at_def
      new_Date_def timeRange_def Let_def nth_append list_update_append split: prod.split)

lemma weekdayRange_st_eq:
  assumes "module_loaded w"
  shows "weekdayRange_st clock wd1 wd2 gmt w =
     (weekdayRange (clock (reads w)) wd1 wd2 gmt, w\<lparr>reads := Suc (reads w)\<rparr>)"
  using assms
  by (simp add: weekdayRange_st_def weekdayRange_def module_loaded_def isWeekday_st_def
      isWeekday_def getTodaysDay_st_def getTodaysDay_def new_Date_def Let_def
      split: prod.split)

lemma module_loaded_timeRange_st:
  assumes "module_loaded w"
  shows "module_loaded (snd (timeRange_st clock actuals w))"
  using assms by (simp add: timeRange_st_eq module_loaded_def nth_append)

lemma module_loaded_weekdayRange_st:
  assumes "module_loaded w"
  shows "module_loaded (snd (weekdayRange_st clock wd1 wd2 gmt w))"
  using assms by (simp add: weekdayRange_st_eq module_loaded_def)

section \<open>Claim on both predicates\<close>

text \<open>
  Claim C9. \<open>timeRange\<close> and \<open>weekdayRange\<close> are functions of their arguments and of
  one clock reading, and they keep no state. Run on a heap of arrays and a running clock,
  with the table \<open>weekdays\<close> in place, a call takes exactly one reading of the clock and
  returns what the function gives on that reading and the arguments, whatever else the
  heap holds. It changes no array that was there before, the table \<open>weekdays\<close> and the
  \<open>arguments\<close> object of the call included: the \<open>pop\<close> and \<open>push\<close> of \<open>timeRange\<close>
  touch only the copy made by \<open>slice\<close>, and \<open>weekdayRange\<close> writes nothing. So a second
  call with the same arguments that gets the same clock reading returns the same
  boolean, also with a call of the other function in between.
\<close>

theorem calls_deterministic:
  assumes "module_loaded w"
  shows
    "fst (timeRange_st clock actuals w) = timeRange (clock (reads w)) actuals \<and>
     reads (snd (timeRange_st clock actuals w)) = Suc (reads w) \<and>
     take (length (heap w)) (heap (snd (timeRange_st clock actuals w))) = heap w \<and>
     heap (snd (timeRange_st clock actuals w)) ! length (heap w) = actuals \<and>
     module_loaded (snd (timeRange_st clock actuals w)) \<and>
     fst (weekdayRange_st clock wd1 wd2 gmt w) = weekdayRange (clock (reads w)) wd1 wd2 gmt \<and>
     snd (weekdayRange_st clock wd1 wd2 gmt w) = w\<lparr>reads := Suc (reads w)\<rparr> \<and>
     (clock (Suc (reads w)) = clock (reads w) \<longrightarrow>
        fst (timeRange_st clock actuals (snd (timeRange_st clock actuals w))) =
          fst (timeRange_st clock actuals w) \<and>
        fst (weekdayRange_st clock wd1 wd2 gmt (snd (weekdayRange_st clock wd1 wd2 gmt w))) =
          fst (weekdayRange_st clock wd1 wd2 gmt w)) \<and>
     (clock (Suc (Suc (reads w))) = clock (reads w) \<longrightarrow>
        fst (weekdayRange_st clock wd1 wd2 gmt
              (snd (timeRange_st clock actuals (snd (weekdayRange_st clock wd1 wd2 gmt w))))) =
          fst (weekdayRange_st clock wd1 wd2 gmt w))"
proof -
  have result: "fst (timeRange_st clock actuals w) = timeRange (clock (reads w)) actuals"
    and one_reading: "reads (snd (timeRange_st clock actuals w)) = Suc (reads w)"
    and kept: "take (length (heap w)) (heap (snd (timeRange_st clock actuals w))) = heap w"
    and arguments: "heap (snd (timeRange_st clock actuals w)) ! length (heap w) = actuals"
    by (simp_all add: timeRange_st_eq)
  note table = module_loaded_timeRange_st [OF assms, of clock actuals]
  note wd = weekdayRange_st_eq [OF assms, of clock wd1 wd2 gmt]
  have wresult: "fst (weekdayRange_st clock wd1 wd2 gmt w) =
      weekdayRange (clock (reads w)) wd1 wd2 gmt"
    and wstate: "snd (weekdayRange_st clock wd1 wd2 gmt w) = w\<lparr>reads := Suc (reads w)\<rparr>"
    by (simp_all add: wd)
  have l1: "module_loaded (w\<lparr>reads := Suc (reads w)\<rparr>)"
    using assms by (simp add: module_loaded_def)
  have twice: "clock (Suc (reads w)) = clock (reads w) \<longrightarrow>
        fst (timeRange_st clock actuals (snd (timeRange_st clock actuals w))) =
          fst (timeRange_st clock actuals w) \<and>
        fst (weekdayRange_st clock wd1 wd2 gmt (snd (weekdayRange_st clock wd1 wd2 gmt w))) =
          fst (weekdayRange_st clock wd1 wd2 gmt w)"
    by (simp add: timeRange_st_eq wd weekdayRange_st_eq [OF l1])
  define w2 where "w2 = snd (timeRange_st clock actuals (w\<lparr>reads := Suc (reads w)\<rparr>))"
  have l2: "module_loaded w2"
    unfolding w2_def using l1 by (rule module_loaded_timeRange_st)
  have r2: "reads w2 = Suc (Suc (reads w))"
    by (simp add: w2_def timeRange_st_eq)
  have "fst (weekdayRange_st clock wd1 wd2 gmt w2) =
      weekdayRange (clock (Suc (Suc (reads w)))) wd1 wd2 gmt"
    by (simp add: weekdayRange_st_eq [OF l2] r2)
  then have between: "clock (Suc (Suc (reads w))) = clock (reads w) \<longrightarrow>
        fst (weekdayRange_st clock wd1 wd2 gmt
              (snd (timeRange_st clock actuals (snd (weekdayRange_st clock wd1 wd2 gmt w))))) =
          fst (weekdayRange_st clock wd1 wd2 gmt w)"
    unfolding wstate w2_def [symmetric] wresult by simp
  show ?thesis
    by (intro conjI result one_reading kept arguments table wresult wstate twice between)
qed

theorem calls_deterministic_witness:
  "module_loaded \<lparr>heap = [weekdays], reads = 0\<rparr> \<and>
   fst (timeRange_st
      (\<lambda>n. \<lparr>getHours = 12, getMinutes = 0, getSeconds = 0, getDay = 1,
         getUTCHours = 17, getUTCMinutes = 0, getUTCSeconds = 0, getUTCDay = 1\<rparr>)
      [JNum 12] \<lparr>heap = [weekdays], reads = 0\<rparr>) \<and>
   reads (snd (timeRange_st
      (\<lambda>n. \<lparr>getHours = 12, getMinutes = 0, getSeconds = 0, getDay = 1,
         getUTCHours = 17, getUTCMinutes = 0, getUTCSeconds = 0, getUTCDay = 1\<rparr>)
      [JNum 12] \<lparr>heap = [weekdays], reads = 0\<rparr>)) = 1 \<and>
   take 1 (heap (snd (timeRange_st
      (\<lambda>n. \<lparr>getHours = 12, getMinutes = 0, getSeconds = 0, getDay = 1,
         getUTCHours = 17, getUTCMinutes = 0, getUTCSeconds = 0, getUTCDay = 1\<rparr>)
      [JNum 12] \<lparr>heap = [weekdays], reads = 0\<rparr>))) = [weekdays] \<and>
   fst (weekdayRange_st
      (\<lambda>n. \<lparr>getHours = 12, getMinutes = 0, getSeconds = 0, getDay = 1,
         getUTCHours = 17, getUTCMinutes = 0, getUTCSeconds = 0, getUTCDay = 1\<rparr>)
      (JStr ''MON'') (JStr ''FRI'') JUndefined \<lparr>heap = [weekdays], reads = 0\<rparr>)"
proof -
  have m: "module_loaded \<lparr>heap = [weekdays], reads = 0\<rparr>"
    by (simp add: module_loaded_def weekdays_ref_def)
  have t: "timeRange \<lparr>getHours = 12, getMinutes = 0, getSeconds = 0, getDay = 1,
         getUTCHours = 17, getUTCMinutes = 0, getUTCSeconds = 0, getUTCDay = 1\<rparr> [JNum 12]"
    by (simp add: timeRange_local dispatch_1 parseInt_JNum getCurrentHour_def)
  have wk: "isWeekday (JStr ''FRI'')"
    by (simp add: isWeekday_def indexOf_tokens)
  have d: "weekdayRange \<lparr>getHours = 12, getMinutes = 0, getSeconds = 0, getDay = 1,
         getUTCHours = 17, getUTCMinutes = 0, getUTCSeconds = 0, getUTCDay = 1\<rparr>
         (JStr ''MON'') (JStr ''FRI'') JUndefined"
    using wk by (simp add: weekdayRange_two indexOf_tokens getTodaysDay_def isGMT_def)
  note c = calls_deterministic [OF m, of
        "\<lambda>n. \<lparr>getHours = 12, getMinutes = 0, getSeconds = 0, getDay = 1,
           getUTCHours = 17, getUTCMinutes = 0, getUTCSeconds = 0, getUTCDay = 1\<rparr>"
        "[JNum 12]" "JStr ''MON''" "JStr ''FRI''" JUndefined]
  from c have 1: "fst (timeRange_st
      (\<lambda>n. \<lparr>getHours = 12, getMinutes = 0, getSeconds = 0, getDay = 1,
         getUTCHours = 17, getUTCMinutes = 0, getUTCSeconds = 0, getUTCDay = 1\<rparr>)
      [JNum 12] \<lparr>heap = [weekdays], reads = 0\<rparr>)"
    using t by simp
  from c have 2: "reads (snd (timeRange_st
      (\<lambda>n. \<lparr>getHours = 12, getMinutes = 0, getSeconds = 0, getDay = 1,
         getUTCHours = 17, getUTCMinutes = 0, getUTCSeconds = 0, getUTCDay = 1\<rparr>)
      [JNum 12] \<lparr>heap = [weekdays], reads = 0\<rparr>)) = 1"
    by simp
  from c have 3: "take 1 (heap (snd (timeRange_st
      (\<lambda>n. \<lparr>getHours = 12, getMinutes = 0, getSeconds = 0, getDay = 1,
         getUTCHours = 17, getUTCMinutes = 0, getUTCSeconds = 0, getUTCDay = 1\<rparr>)
      [JNum 12] \<lparr>heap = [weekdays], reads = 0\<rparr>))) = [weekdays]"
    by simp
  from c have 4: "fst (weekdayRange_st
      (\<lambda>n. \<lparr>getHours = 12, getMinutes = 0, getSeconds = 0, getDay = 1,
         getUTCHours = 17, getUTCMinutes = 0, getUTCSeconds = 0, getUTCDay = 1\<rparr>)
      (JStr ''MON'') (JStr ''FRI'') JUndefined \<lparr>heap = [weekdays], reads = 0\<rparr>)"
    using d by simp
  show ?thesis
    by (intro conjI m 1 2 3 4)
qed

end
